theory Spec2Isabelle
  imports Main "HOL-Library.Word"
begin

unbundle bit_operations_syntax

section \<open>The virtual machine (vm.cpp)\<close>

text \<open>
  The machine of \<^verbatim>\<open>class VM\<close>: two byte vectors \<^verbatim>\<open>ram\<close> and \<^verbatim>\<open>rom\<close>, the array
  \<^verbatim>\<open>registers\<close> of four bytes (A, B, C, F at indices 0 to 3) and the 16-bit counters
  \<^verbatim>\<open>PC\<close> and \<^verbatim>\<open>SP\<close>. The array \<^verbatim>\<open>registers16\<close> is never read or written by the
  source and is left out. The field \<open>console\<close> records the opcodes that the
  \<^verbatim>\<open>default\<close> branch of \<^verbatim>\<open>execute\<close> prints as "Unknown opcode"; the debug trace of
  \<^verbatim>\<open>run\<close> is not modelled.

  The source has two kinds of undefined behaviour, and each is an error value of the
  model. C++ does not check the index of \<^verbatim>\<open>operator[]\<close> on a vector or an array: an
  index out of range is \<open>Out_of_bounds\<close>. The function \<^verbatim>\<open>execute\<close> returns \<^verbatim>\<open>int\<close>
  and ends without a \<^verbatim>\<open>return\<close> statement after every \<^verbatim>\<open>break\<close>: a run that comes
  there is \<open>Missing_return\<close>.
\<close>

type_synonym u8 = "8 word"
type_synonym u16 = "16 word"

datatype vm_error = Out_of_bounds | Missing_return

record vm =
  ram :: "u8 list"
  rom :: "u8 list"
  registers :: "u8 list"
  PC :: u16
  SP :: u16
  console :: "u8 list"

definition A_REG :: u8 where "A_REG = 0x00"
definition B_REG :: u8 where "B_REG = 0x01"
definition C_REG :: u8 where "C_REG = 0x02"
definition F_REG :: u8 where "F_REG = 0x03"

definition ZeroMask :: u8 where "ZeroMask = 1"
definition CarryMask :: u8 where "CarryMask = 2"

text \<open>\<^verbatim>\<open>bool isBitSet(int n, int k) { return (n & (1 << k)) != 0; }\<close>\<close>

definition isBitSet :: "int \<Rightarrow> nat \<Rightarrow> bool" where
  "isBitSet n k \<longleftrightarrow> (n AND push_bit k 1) \<noteq> 0"

text \<open>The constructor: both memories resized to 4096 zero bytes, registers, PC and SP zero.\<close>

definition VM_init :: vm where
  "VM_init = \<lparr>ram = replicate 4096 0, rom = replicate 4096 0, registers = [0, 0, 0, 0],
     PC = 0, SP = 0, console = []\<rparr>"

text \<open>
  \<^verbatim>\<open>load_program\<close> copies the program over the start of \<^verbatim>\<open>rom\<close> and resets PC. A
  program longer than the ROM makes \<^verbatim>\<open>std::copy\<close> write past the end of the vector.
\<close>

definition load_program :: "u8 list \<Rightarrow> vm \<Rightarrow> vm_error + vm" where
  "load_program program s =
     (if length program \<le> length (rom s)
      then Inr (s\<lparr>rom := program @ drop (length program) (rom s), PC := 0\<rparr>)
      else Inl Out_of_bounds)"

text \<open>\<^verbatim>\<open>rom[PC++]\<close>: read the byte at PC, then advance PC (a \<^verbatim>\<open>uint16_t\<close>, so it wraps).\<close>

definition fetch :: "vm \<Rightarrow> vm_error + (u8 \<times> vm)" where
  "fetch s =
     (if unat (PC s) < length (rom s)
      then Inr (rom s ! unat (PC s), s\<lparr>PC := PC s + 1\<rparr>)
      else Inl Out_of_bounds)"

text \<open>
  \<^verbatim>\<open>(rom[PC++] << 8) | rom[PC++]\<close>: both bytes are promoted to \<^verbatim>\<open>int\<close>, so the value
  is an \<^verbatim>\<open>int\<close> between 0 and 65535; what becomes of it depends on the type of the
  variable it is assigned to. The two increments of PC are unsequenced in C++; the model
  takes the left operand first, which is the order under which the first byte is the high
  byte, as the assembler writes it.
\<close>

definition fetch16 :: "vm \<Rightarrow> vm_error + (int \<times> vm)" where
  "fetch16 s =
     (case fetch s of Inl e \<Rightarrow> Inl e | Inr (hi, s1) \<Rightarrow>
      (case fetch s1 of Inl e \<Rightarrow> Inl e | Inr (lo, s2) \<Rightarrow>
         Inr (push_bit 8 (uint hi) OR uint lo, s2)))"

definition get_reg :: "vm \<Rightarrow> u8 \<Rightarrow> vm_error + u8" where
  "get_reg s r =
     (if unat r < length (registers s) then Inr (registers s ! unat r) else Inl Out_of_bounds)"

definition set_reg :: "vm \<Rightarrow> u8 \<Rightarrow> u8 \<Rightarrow> vm_error + vm" where
  "set_reg s r v =
     (if unat r < length (registers s)
      then Inr (s\<lparr>registers := (registers s)[unat r := v]\<rparr>)
      else Inl Out_of_bounds)"

text \<open>
  The value \<^verbatim>\<open>execute\<close> returns: \<open>Some (- 1)\<close> for \<^verbatim>\<open>return -1\<close>. Every \<^verbatim>\<open>break\<close>
  leaves the \<^verbatim>\<open>switch\<close> and reaches the end of the function without a \<^verbatim>\<open>return\<close>
  (the \<^verbatim>\<open>return 1\<close> stands inside the switch after the last \<^verbatim>\<open>return -1\<close> and is
  never reached), which is undefined behaviour in a function that returns a value. For
  such a case \<open>execute\<close> gives \<open>None\<close>, "no value returned", next to the machine as the
  statements of the case have left it, so that the state change of the case can be
  stated; it is not a value that a caller may use, and \<^verbatim>\<open>run\<close> below makes it the error
  \<open>Missing_return\<close>.
\<close>

type_synonym exec_result = "vm_error + (int option \<times> vm)"

text \<open>Cases 0x01, 0x04, 0x07: \<^verbatim>\<open>value = rom[PC++]; registers[d] = value;\<close>\<close>

definition load_value :: "u8 \<Rightarrow> vm \<Rightarrow> exec_result" where
  "load_value d s =
     (case fetch s of Inl e \<Rightarrow> Inl e | Inr (v, s1) \<Rightarrow>
      (case set_reg s1 d v of Inl e \<Rightarrow> Inl e | Inr s2 \<Rightarrow> Inr (None, s2)))"

text \<open>Cases 0x02, 0x05, 0x08: \<^verbatim>\<open>reg = rom[PC++]; registers[d] = registers[reg];\<close>\<close>

definition load_register :: "u8 \<Rightarrow> vm \<Rightarrow> exec_result" where
  "load_register d s =
     (case fetch s of Inl e \<Rightarrow> Inl e | Inr (reg, s1) \<Rightarrow>
      (case get_reg s1 reg of Inl e \<Rightarrow> Inl e | Inr v \<Rightarrow>
       (case set_reg s1 d v of Inl e \<Rightarrow> Inl e | Inr s2 \<Rightarrow> Inr (None, s2))))"

text \<open>
  Cases 0x03, 0x06, 0x09:
  \<^verbatim>\<open>location = (rom[PC++] << 8) | rom[PC++]; ram[location] = registers[d];\<close>
  with \<^verbatim>\<open>uint16_t location\<close>.
\<close>

definition store_register :: "u8 \<Rightarrow> vm \<Rightarrow> exec_result" where
  "store_register d s =
     (case fetch16 s of Inl e \<Rightarrow> Inl e | Inr (w, s1) \<Rightarrow>
      (let location = (word_of_int w :: u16) in
       (case get_reg s1 d of Inl e \<Rightarrow> Inl e | Inr v \<Rightarrow>
          if unat location < length (ram s1)
          then Inr (None, s1\<lparr>ram := (ram s1)[unat location := v]\<rparr>)
          else Inl Out_of_bounds)))"

text \<open>Case 0x0A: \<^verbatim>\<open>location = ...; registers[A_REG] = ram[location];\<close>\<close>

definition load_address :: "vm \<Rightarrow> exec_result" where
  "load_address s =
     (case fetch16 s of Inl e \<Rightarrow> Inl e | Inr (w, s1) \<Rightarrow>
      (let location = (word_of_int w :: u16) in
       if unat location < length (ram s1)
       then (case set_reg s1 A_REG (ram s1 ! unat location) of
               Inl e \<Rightarrow> Inl e | Inr s2 \<Rightarrow> Inr (None, s2))
       else Inl Out_of_bounds))"

text \<open>
  Cases 0x0B, 0x0C, 0x0F, 0x10, 0x11:
  \<^verbatim>\<open>reg = rom[PC++]; reg2 = rom[PC++]; registers[reg] op= registers[reg2];\<close>
  The compound assignment computes in \<^verbatim>\<open>int\<close> and converts back to \<^verbatim>\<open>uint8_t\<close>;
  for the bitwise operators that is the operation on bytes.
\<close>

definition reg_reg_op :: "(u8 \<Rightarrow> u8 \<Rightarrow> u8) \<Rightarrow> vm \<Rightarrow> exec_result" where
  "reg_reg_op f s =
     (case fetch s of Inl e \<Rightarrow> Inl e | Inr (reg, s1) \<Rightarrow>
      (case fetch s1 of Inl e \<Rightarrow> Inl e | Inr (reg2, s2) \<Rightarrow>
       (case get_reg s2 reg2 of Inl e \<Rightarrow> Inl e | Inr b \<Rightarrow>
        (case get_reg s2 reg of Inl e \<Rightarrow> Inl e | Inr a \<Rightarrow>
         (case set_reg s2 reg (f a b) of Inl e \<Rightarrow> Inl e | Inr s3 \<Rightarrow> Inr (None, s3))))))"

text \<open>
  Cases 0x0D, 0x0E:
  \<^verbatim>\<open>reg = rom[PC++]; value = rom[PC++]; registers[reg] op= value;\<close>
\<close>

definition reg_value_op :: "(u8 \<Rightarrow> u8 \<Rightarrow> u8) \<Rightarrow> vm \<Rightarrow> exec_result" where
  "reg_value_op f s =
     (case fetch s of Inl e \<Rightarrow> Inl e | Inr (reg, s1) \<Rightarrow>
      (case fetch s1 of Inl e \<Rightarrow> Inl e | Inr (v, s2) \<Rightarrow>
       (case get_reg s2 reg of Inl e \<Rightarrow> Inl e | Inr a \<Rightarrow>
        (case set_reg s2 reg (f a v) of Inl e \<Rightarrow> Inl e | Inr s3 \<Rightarrow> Inr (None, s3)))))"

text \<open>Case 0x12: \<^verbatim>\<open>reg = rom[PC++]; registers[reg] = ~registers[reg];\<close>\<close>

definition not_register :: "vm \<Rightarrow> exec_result" where
  "not_register s =
     (case fetch s of Inl e \<Rightarrow> Inl e | Inr (reg, s1) \<Rightarrow>
      (case get_reg s1 reg of Inl e \<Rightarrow> Inl e | Inr a \<Rightarrow>
       (case set_reg s1 reg (NOT a) of Inl e \<Rightarrow> Inl e | Inr s2 \<Rightarrow> Inr (None, s2))))"

text \<open>
  Case 0x13: \<^verbatim>\<open>value = (rom[PC++] << 8) | rom[PC++]; PC = value;\<close> with
  \<^verbatim>\<open>uint8_t value\<close>, which keeps the low byte of the target only.
\<close>

definition jump_direct :: "vm \<Rightarrow> exec_result" where
  "jump_direct s =
     (case fetch16 s of Inl e \<Rightarrow> Inl e | Inr (w, s1) \<Rightarrow>
      (let val = (word_of_int w :: u8) in Inr (None, s1\<lparr>PC := word_of_int (uint val)\<rparr>)))"

text \<open>
  Cases 0x14 to 0x17. The target goes through \<^verbatim>\<open>uint8_t value\<close> as in case 0x13;
  \<open>taken\<close> is the test on the flag register and \<open>adjust\<close> is what is subtracted from
  \<^verbatim>\<open>value\<close> (as an \<^verbatim>\<open>int\<close>) before the assignment to PC: 1 in case 0x15
  (\<^verbatim>\<open>PC = value - 1\<close>), 0 in the others (\<^verbatim>\<open>PC = value\<close>).
\<close>

definition jump :: "(u8 \<Rightarrow> bool) \<Rightarrow> int \<Rightarrow> vm \<Rightarrow> exec_result" where
  "jump taken adjust s =
     (case fetch16 s of Inl e \<Rightarrow> Inl e | Inr (w, s1) \<Rightarrow>
      (let val = (word_of_int w :: u8) in
       (case get_reg s1 F_REG of Inl e \<Rightarrow> Inl e | Inr f \<Rightarrow>
          if taken f then Inr (None, s1\<lparr>PC := word_of_int (uint val - adjust)\<rparr>)
          else Inr (None, s1))))"

text \<open>
  Case 0x18, four \<^verbatim>\<open>if\<close> statements in sequence on \<^verbatim>\<open>reg = registers[A_REG]\<close> and
  \<^verbatim>\<open>value = rom[PC++]\<close>, each rewriting \<^verbatim>\<open>registers[F_REG]\<close>.
\<close>

definition compare :: "vm \<Rightarrow> exec_result" where
  "compare s =
     (case fetch s of Inl e \<Rightarrow> Inl e | Inr (v, s1) \<Rightarrow>
      (case get_reg s1 A_REG of Inl e \<Rightarrow> Inl e | Inr reg \<Rightarrow>
       (case get_reg s1 F_REG of Inl e \<Rightarrow> Inl e | Inr f0 \<Rightarrow>
        (let f1 = (if reg = v then ZeroMask else f0);
             f2 = (if reg \<noteq> v then f1 AND NOT ZeroMask else f1);
             f3 = (if reg > v then 0 else f2);
             f4 = (if reg < v then CarryMask else f3)
         in (case set_reg s1 F_REG f4 of Inl e \<Rightarrow> Inl e | Inr s2 \<Rightarrow> Inr (None, s2))))))"

text \<open>\<^verbatim>\<open>int execute(uint8_t opcode)\<close>, the cases in the order of the \<^verbatim>\<open>switch\<close>.\<close>

definition execute :: "u8 \<Rightarrow> vm \<Rightarrow> exec_result" where
  "execute opcode s =
     (if opcode = 0x01 then load_value A_REG s
      else if opcode = 0x02 then load_register A_REG s
      else if opcode = 0x03 then store_register A_REG s
      else if opcode = 0x04 then load_value 1 s
      else if opcode = 0x05 then load_register 1 s
      else if opcode = 0x06 then store_register 1 s
      else if opcode = 0x07 then load_value 2 s
      else if opcode = 0x08 then load_register 2 s
      else if opcode = 0x09 then store_register 2 s
      else if opcode = 0x0A then load_address s
      else if opcode = 0x0B then reg_reg_op (\<lambda>a b. a OR b) s
      else if opcode = 0x0C then reg_reg_op (\<lambda>a b. a AND NOT b) s
      else if opcode = 0x0D then reg_value_op (\<lambda>a v. a + v) s
      else if opcode = 0x0E then reg_value_op (\<lambda>a v. a AND NOT v) s
      else if opcode = 0x0F then reg_reg_op (\<lambda>a b. a AND b) s
      else if opcode = 0x10 then reg_reg_op (\<lambda>a b. a OR b) s
      else if opcode = 0x11 then reg_reg_op (\<lambda>a b. a XOR b) s
      else if opcode = 0x12 then not_register s
      else if opcode = 0x13 then jump_direct s
      else if opcode = 0x14 then jump (\<lambda>f. f AND ZeroMask \<noteq> 0) 0 s
      else if opcode = 0x15 then jump (\<lambda>f. f AND ZeroMask = 0) 1 s
      else if opcode = 0x16 then jump (\<lambda>f. isBitSet (uint f) 1) 0 s
      else if opcode = 0x17 then jump (\<lambda>f. \<not> isBitSet (uint f) 1) 0 s
      else if opcode = 0x18 then compare s
      else if opcode = 0x00 then Inr (Some (- 1), s)
      else if opcode = 0xFF then Inr (None, s)
      else Inr (Some (- 1), s\<lparr>console := console s @ [opcode]\<rparr>))"

text \<open>
  The head of the loop body of \<^verbatim>\<open>run\<close>:
  \<^verbatim>\<open>uint8_t instruction = rom[PC++]; int result = execute(instruction);\<close>
\<close>

definition step :: "vm \<Rightarrow> exec_result" where
  "step s =
     (case fetch s of Inl e \<Rightarrow> Inl e | Inr (instruction, s1) \<Rightarrow> execute instruction s1)"

text \<open>
  \<^verbatim>\<open>run\<close>: the loop \<^verbatim>\<open>while (PC < rom.size())\<close> fetches one byte, executes it and
  stops when the result is -1. When \<^verbatim>\<open>execute\<close> has ended without a \<^verbatim>\<open>return\<close>
  there is no result to test: the behaviour of the program is undefined from there on, and
  the run ends in the error \<open>Missing_return\<close>. Whether a compiled machine then goes on
  with the next byte, stops, or does something else is not fixed by the source, and no
  result below says which. The function is partial (\<open>None\<close> is "does not return"), as
  the loop of the source is.
\<close>

partial_function (option) run :: "vm \<Rightarrow> (vm_error + vm) option" where
  "run s =
     (if unat (PC s) < length (rom s) then
        (case step s of Inl e \<Rightarrow> Some (Inl e) | Inr (result, s2) \<Rightarrow>
         (case result of
            None \<Rightarrow> Some (Inl Missing_return)
          | Some r \<Rightarrow> if r = - 1 then Some (Inr s2) else run s2))
      else Some (Inr s))"

text \<open>
  \<^verbatim>\<open>main\<close> of vm.cpp without the file and the command line: a fresh machine, the
  program loaded, then \<^verbatim>\<open>run\<close>.
\<close>

definition vm_main :: "u8 list \<Rightarrow> (vm_error + vm) option" where
  "vm_main program =
     (case load_program program VM_init of Inl e \<Rightarrow> Some (Inl e) | Inr s \<Rightarrow> run s)"

text \<open>
  The sizes the constructor gives the three containers; no operation of the machine
  changes them.
\<close>

definition vm_sized :: "vm \<Rightarrow> bool" where
  "vm_sized s \<longleftrightarrow>
     length (ram s) = 4096 \<and> length (rom s) = 4096 \<and> length (registers s) = 4"

section \<open>The assembler (assembler.cpp)\<close>

text \<open>
  What stops the assembler before it returns: an uncaught \<^verbatim>\<open>std::out_of_range\<close>
  (from \<^verbatim>\<open>map::at\<close>, \<^verbatim>\<open>string::substr\<close>, \<^verbatim>\<open>stoi\<close>, \<^verbatim>\<open>stoul\<close>), an uncaught
  \<^verbatim>\<open>std::invalid_argument\<close> (from \<^verbatim>\<open>stoi\<close>, \<^verbatim>\<open>stoul\<close>), undefined behaviour
  (\<^verbatim>\<open>front()\<close> or \<^verbatim>\<open>back()\<close> of an empty string, an index outside \<^verbatim>\<open>program\<close>).
  The source has no other error: it never reports an undefined label, an unknown mnemonic
  or a duplicate label.
\<close>

datatype asm_error = Undefined_behaviour | Out_of_range | Invalid_argument

definition and_then :: "asm_error + 'a \<Rightarrow> ('a \<Rightarrow> asm_error + 'b) \<Rightarrow> asm_error + 'b" where
  "and_then r f = (case r of Inl e \<Rightarrow> Inl e | Inr x \<Rightarrow> f x)"

subsection \<open>The constant tables\<close>

text \<open>\<^verbatim>\<open>m.at(k)\<close> throws \<^verbatim>\<open>std::out_of_range\<close> when the key is absent.\<close>

definition at :: "('k \<rightharpoonup> 'v) \<Rightarrow> 'k \<Rightarrow> asm_error + 'v" where
  "at m k = (case m k of None \<Rightarrow> Inl Out_of_range | Some v \<Rightarrow> Inr v)"

definition ld_registers :: "char \<rightharpoonup> u8" where
  "ld_registers = map_of [(CHR ''A'', 0x02), (CHR ''B'', 0x05), (CHR ''C'', 0x08)]"

definition ld_values :: "char \<rightharpoonup> u8" where
  "ld_values = map_of [(CHR ''A'', 0x01), (CHR ''B'', 0x04), (CHR ''C'', 0x07)]"

definition st_addresses :: "char \<rightharpoonup> u8" where
  "st_addresses = map_of [(CHR ''A'', 0x03), (CHR ''B'', 0x06), (CHR ''C'', 0x09)]"

definition register_codes :: "char \<rightharpoonup> u8" where
  "register_codes = map_of [(CHR ''A'', 0x00), (CHR ''B'', 0x01), (CHR ''C'', 0x02)]"

definition bitwise_operations :: "string \<rightharpoonup> u8" where
  "bitwise_operations = map_of [(''AND'', 0x0F), (''OR'', 0x10), (''XOR'', 0x11), (''NOT'', 0x12)]"

definition jump_cases :: "string \<rightharpoonup> u8" where
  "jump_cases = map_of [(''Z'', 0x14), (''NZ'', 0x15), (''C'', 0x16), (''NC'', 0x17)]"

text \<open>The vector \<^verbatim>\<open>registers\<close> of the assembler (the machine has a field of that name).\<close>

definition register_names :: "string list" where
  "register_names = [''A'', ''B'', ''C'']"

subsection \<open>Data\<close>

text \<open>
  \<^verbatim>\<open>class Instruction\<close>: \<^verbatim>\<open>opcode\<close> has no initialiser (\<open>None\<close> until a branch assigns
  it; what \<^verbatim>\<open>main\<close> writes for it then is a parameter of \<open>assemble_line\<close> below); both
  operands start as \<^verbatim>\<open>EMPTY_OPERAND\<close>, the enumerator -1 converted to
  \<^verbatim>\<open>uint8_t\<close>.
\<close>

record Instruction =
  opcode :: "u8 option"
  operand1 :: u8
  operand2 :: u8

definition EMPTY_OPERAND :: int where
  "EMPTY_OPERAND = - 1"

definition new_Instruction :: Instruction where
  "new_Instruction =
     \<lparr>opcode = None, operand1 = word_of_int EMPTY_OPERAND, operand2 = word_of_int EMPTY_OPERAND\<rparr>"

text \<open>\<^verbatim>\<open>class ParsedLine\<close>; its fields \<^verbatim>\<open>address\<close> and \<^verbatim>\<open>size\<close> are \<open>pl_address\<close> and \<open>pl_size\<close>.\<close>

record ParsedLine =
  instruction :: Instruction
  label :: string
  is_label :: bool
  pl_address :: u16
  pl_size :: u16

definition new_ParsedLine :: ParsedLine where
  "new_ParsedLine =
     \<lparr>instruction = new_Instruction, label = [], is_label = False, pl_address = 0, pl_size = 0\<rparr>"

text \<open>
  What lives across lines: the global \<^verbatim>\<open>program\<close> and the three locals of \<^verbatim>\<open>main\<close>
  that \<^verbatim>\<open>parse_line\<close> receives by pointer. A \<^verbatim>\<open>std::map\<close> is a partial function.
\<close>

record asm_state =
  address :: u16
  labels :: "string \<rightharpoonup> u16"
  waiting_labels :: "string \<rightharpoonup> u16"
  program :: "u8 list"

definition asm_init :: asm_state where
  "asm_init = \<lparr>address = 0, labels = Map.empty, waiting_labels = Map.empty, program = []\<rparr>"

text \<open>\<^verbatim>\<open>m->insert({k, v})\<close> leaves the map as it is when the key is present.\<close>

definition map_insert :: "('k \<rightharpoonup> 'v) \<Rightarrow> 'k \<Rightarrow> 'v \<Rightarrow> ('k \<rightharpoonup> 'v)" where
  "map_insert m k v = (case m k of None \<Rightarrow> m(k \<mapsto> v) | Some old \<Rightarrow> m)"

subsection \<open>Strings and numbers\<close>

text \<open>\<^verbatim>\<open>front()\<close> and \<^verbatim>\<open>back()\<close> require a non-empty string
  (\<open>str_front\<close> and \<open>str_back\<close> here).\<close>

definition str_front :: "string \<Rightarrow> asm_error + char" where
  "str_front t = (case t of [] \<Rightarrow> Inl Undefined_behaviour | c # cs \<Rightarrow> Inr c)"

definition str_back :: "string \<Rightarrow> asm_error + char" where
  "str_back t = (if t = [] then Inl Undefined_behaviour else Inr (last t))"

text \<open>\<^verbatim>\<open>::toupper\<close> in the C locale.\<close>

definition toupper :: "char \<Rightarrow> char" where
  "toupper c =
     (case map_of (zip ''abcdefghijklmnopqrstuvwxyz'' ''ABCDEFGHIJKLMNOPQRSTUVWXYZ'') c of
        None \<Rightarrow> c | Some u \<Rightarrow> u)"

text \<open>\<^verbatim>\<open>if (token.find(',') != npos) token.erase(token.find(','));\<close>\<close>

definition erase_from_comma :: "string \<Rightarrow> string" where
  "erase_from_comma t = takeWhile (\<lambda>c. c \<noteq> CHR '','') t"

text \<open>
  The predicates take the token by reference and some rewrite it; the model returns the
  rewritten token next to the answer.
\<close>

definition is_address :: "string \<Rightarrow> asm_error + bool" where
  "is_address t = and_then (str_front t) (\<lambda>c. Inr (c = CHR ''$'' \<and> length t > 1))"

definition is_register :: "string \<Rightarrow> bool \<times> string" where
  "is_register t = (let t' = erase_from_comma (map toupper t) in (t' \<in> set register_names, t'))"

definition is_hex :: "string \<Rightarrow> asm_error + bool" where
  "is_hex t = and_then (str_front t) (\<lambda>c. Inr (c = CHR ''0'' \<and> length t > 1 \<and> t ! 1 = CHR ''X''))"

definition is_jump_case :: "string \<Rightarrow> bool \<times> string" where
  "is_jump_case t = (let t' = erase_from_comma t in (jump_cases t' \<noteq> None, t'))"

definition dec_digit :: "char \<rightharpoonup> int" where
  "dec_digit = map_of [(CHR ''0'', 0), (CHR ''1'', 1), (CHR ''2'', 2), (CHR ''3'', 3),
     (CHR ''4'', 4), (CHR ''5'', 5), (CHR ''6'', 6), (CHR ''7'', 7), (CHR ''8'', 8), (CHR ''9'', 9)]"

definition hex_digit :: "char \<rightharpoonup> int" where
  "hex_digit = map_of [(CHR ''0'', 0), (CHR ''1'', 1), (CHR ''2'', 2), (CHR ''3'', 3),
     (CHR ''4'', 4), (CHR ''5'', 5), (CHR ''6'', 6), (CHR ''7'', 7), (CHR ''8'', 8), (CHR ''9'', 9),
     (CHR ''a'', 10), (CHR ''b'', 11), (CHR ''c'', 12), (CHR ''d'', 13), (CHR ''e'', 14),
     (CHR ''f'', 15), (CHR ''A'', 10), (CHR ''B'', 11), (CHR ''C'', 12), (CHR ''D'', 13),
     (CHR ''E'', 14), (CHR ''F'', 15)]"

definition digits_value :: "int \<Rightarrow> (char \<rightharpoonup> int) \<Rightarrow> string \<Rightarrow> int" where
  "digits_value base digit ds =
     foldl (\<lambda>n c. base * n + (case digit c of None \<Rightarrow> 0 | Some d \<Rightarrow> d)) 0 ds"

definition strip_sign :: "string \<Rightarrow> bool \<times> string" where
  "strip_sign str =
     (case str of [] \<Rightarrow> (False, [])
      | c # cs \<Rightarrow> if c = CHR ''-'' then (True, cs) else if c = CHR ''+'' then (False, cs)
                 else (False, str))"

text \<open>
  \<^verbatim>\<open>std::stoi(str)\<close>: an optional sign and the longest run of decimal digits (a token
  has no leading white space to skip); \<^verbatim>\<open>invalid_argument\<close> without a digit,
  \<^verbatim>\<open>out_of_range\<close> when the number is not an \<^verbatim>\<open>int\<close> (32 bits).
\<close>

definition stoi :: "string \<Rightarrow> asm_error + int" where
  "stoi str =
     (let (neg, body) = strip_sign str;
          ds = takeWhile (\<lambda>c. dec_digit c \<noteq> None) body
      in if ds = [] then Inl Invalid_argument
         else (let n = digits_value 10 dec_digit ds; v = (if neg then - n else n)
               in if - (2 ^ 31) \<le> v \<and> v \<le> 2 ^ 31 - 1 then Inr v else Inl Out_of_range))"

text \<open>
  \<^verbatim>\<open>std::stoul(str, nullptr, 16)\<close>: an optional sign, an optional \<^verbatim>\<open>0x\<close> or \<^verbatim>\<open>0X\<close>
  when a hexadecimal digit follows it, and the longest run of hexadecimal digits. The
  result is an \<^verbatim>\<open>unsigned long\<close>, taken as 64 bits; a minus sign negates it in that type.
\<close>

definition stoul_hex :: "string \<Rightarrow> asm_error + int" where
  "stoul_hex str =
     (let (neg, body) = strip_sign str;
          body' = (case body of
                     z # x # h # rest \<Rightarrow>
                       if z = CHR ''0'' \<and> (x = CHR ''x'' \<or> x = CHR ''X'') \<and> hex_digit h \<noteq> None
                       then h # rest else body
                   | _ \<Rightarrow> body);
          ds = takeWhile (\<lambda>c. hex_digit c \<noteq> None) body'
      in if ds = [] then Inl Invalid_argument
         else (let v = digits_value 16 hex_digit ds
               in if 2 ^ 64 \<le> v then Inl Out_of_range
                  else Inr (if neg then (2 ^ 64 - v) mod 2 ^ 64 else v)))"

text \<open>\<^verbatim>\<open>token.substr(1)\<close> throws \<^verbatim>\<open>out_of_range\<close> on the empty string.\<close>

definition substr1 :: "string \<Rightarrow> asm_error + string" where
  "substr1 t = (if t = [] then Inl Out_of_range else Inr (drop 1 t))"

text \<open>
  \<^verbatim>\<open>get_value\<close>: for a token that \<^verbatim>\<open>is_hex\<close> accepts, \<^verbatim>\<open>hex_iss >> std::hex >> value\<close>
  with \<^verbatim>\<open>uint8_t value\<close> extracts one character, the first of the token, and stores its
  code; otherwise the \<^verbatim>\<open>int\<close> from \<^verbatim>\<open>stoi\<close> is converted to \<^verbatim>\<open>uint8_t\<close>.
\<close>

definition get_value :: "string \<Rightarrow> asm_error + u8" where
  "get_value t =
     and_then (is_hex t) (\<lambda>h.
       if h then and_then (str_front t) (\<lambda>c. Inr (of_char c))
       else and_then (stoi t) (\<lambda>v. Inr (word_of_int v)))"

text \<open>\<^verbatim>\<open>clean_line\<close> cuts the line at the first semicolon.\<close>

definition clean_line :: "string \<Rightarrow> string" where
  "clean_line line = takeWhile (\<lambda>c. c \<noteq> CHR '';'') line"

text \<open>
  \<^verbatim>\<open>std::istringstream iss(line)\<close>: the stream is modelled by the tokens it still
  holds, the maximal runs of characters that are not white space.
\<close>

definition isspace :: "char \<Rightarrow> bool" where
  "isspace c \<longleftrightarrow> c \<in> set [CHR '' '', CHR 0x09, CHR 0x0A, CHR 0x0B, CHR 0x0C, CHR 0x0D]"

function tokenize :: "string \<Rightarrow> string list" where
  "tokenize [] = []"
| "tokenize (c # cs) =
     (if isspace c then tokenize cs
      else (c # takeWhile (\<lambda>x. \<not> isspace x) cs) # tokenize (dropWhile (\<lambda>x. \<not> isspace x) cs))"
  by pat_completeness auto
termination
  by (relation "measure length") (auto simp: length_dropWhile_le less_Suc_eq_le)

subsection \<open>Labels\<close>

text \<open>
  \<^verbatim>\<open>check_waiting_labels\<close>: when the label has an entry in \<^verbatim>\<open>waiting_labels\<close>, the two
  bytes \<^verbatim>\<open>program[address - 1]\<close> and \<^verbatim>\<open>program[address]\<close> are overwritten. The map holds
  one \<^verbatim>\<open>uint16_t\<close> for each label, and the entry stays in the map.
\<close>

definition check_waiting_labels :: "string \<Rightarrow> u16 \<Rightarrow> asm_state \<Rightarrow> asm_error + asm_state" where
  "check_waiting_labels lbl current_address s =
     (case waiting_labels s lbl of
        None \<Rightarrow> Inr s
      | Some a \<Rightarrow>
          if 1 \<le> unat a \<and> unat a < length (program s)
          then Inr (s\<lparr>program := (program s)
                 [unat a - 1 := ucast (drop_bit 8 current_address),
                  unat a := ucast (current_address AND 0xFF)]\<rparr>)
          else Inl Undefined_behaviour)"

text \<open>
  \<^verbatim>\<open>get_label_address\<close>: the address of a known label; for an unknown one the current
  counter is inserted into \<^verbatim>\<open>waiting_labels\<close> (kept out when the label already waits)
  and -1 is returned as \<^verbatim>\<open>uint16_t\<close>.
\<close>

definition get_label_address :: "u16 \<Rightarrow> string \<Rightarrow> asm_state \<Rightarrow> u16 \<times> asm_state" where
  "get_label_address a lbl s =
     (case labels s lbl of
        Some known \<Rightarrow> (known, s)
      | None \<Rightarrow> (word_of_int (- 1), s\<lparr>waiting_labels := map_insert (waiting_labels s) lbl a\<rparr>))"

subsection \<open>parse_line\<close>

text \<open>
  The locals of \<^verbatim>\<open>parse_line\<close> that its branches share: the current \<^verbatim>\<open>token\<close>, the
  stream \<^verbatim>\<open>iss\<close>, the \<^verbatim>\<open>instruction\<close> under construction (\<open>instr\<close>) and
  \<^verbatim>\<open>parsed_line\<close> (\<open>parsed\<close>). Each \<^verbatim>\<open>if\<close> block of the function is one definition
  below; it ends either with \<^verbatim>\<open>goto finish\<close> or by falling through to the next block.
\<close>

record locals =
  token :: string
  iss :: "string list"
  instr :: Instruction
  parsed :: ParsedLine

datatype flow = Goto_finish | Fall_through

type_synonym stage_result = "asm_error + (flow \<times> locals \<times> asm_state)"

text \<open>\<^verbatim>\<open>iss >> token\<close>: an exhausted stream fails and leaves \<^verbatim>\<open>token\<close> as it was.\<close>

definition read_token :: "locals \<Rightarrow> locals" where
  "read_token l = (case iss l of [] \<Rightarrow> l | t # ts \<Rightarrow> l\<lparr>token := t, iss := ts\<rparr>)"

definition advance :: "u16 \<Rightarrow> asm_state \<Rightarrow> asm_state" where
  "advance n s = s\<lparr>address := address s + n\<rparr>"

definition high_byte :: "u16 \<Rightarrow> u8" where
  "high_byte a = ucast (drop_bit 8 a)"

definition low_byte :: "u16 \<Rightarrow> u8" where
  "low_byte a = ucast (a AND 0xFF)"

text \<open>The block \<^verbatim>\<open>if (token.substr(0, 2) == "LD")\<close>.\<close>

definition handle_load :: "locals \<Rightarrow> asm_state \<Rightarrow> stage_result" where
  "handle_load l s =
     (if take 2 (token l) = ''LD'' then
        and_then (str_back (token l)) (\<lambda>load_to.
          let l1 = read_token l; s1 = advance 1 s;
              (isreg, tok) = is_register (token l1); l2 = l1\<lparr>token := tok\<rparr>
          in if isreg then
               and_then (str_back tok) (\<lambda>load_from.
               and_then (at ld_registers load_to) (\<lambda>opc.
               and_then (at register_codes load_from) (\<lambda>r.
                 Inr (Goto_finish,
                      l2\<lparr>instr := (instr l2)\<lparr>opcode := Some opc, operand1 := r\<rparr>\<rparr>,
                      advance 1 s1))))
             else
               and_then (is_address tok) (\<lambda>isaddr.
                 if isaddr \<and> load_to = CHR ''A'' then
                   and_then (substr1 tok) (\<lambda>digits.
                   and_then (stoul_hex digits) (\<lambda>v.
                     let load_address = (word_of_int v :: u16)
                     in Inr (Goto_finish,
                             l2\<lparr>instr := (instr l2)\<lparr>opcode := Some 0x0A,
                                  operand1 := high_byte load_address,
                                  operand2 := low_byte load_address\<rparr>\<rparr>,
                             advance 1 s1)))
                 else
                   and_then (get_value tok) (\<lambda>load_value.
                   and_then (at ld_values load_to) (\<lambda>opc.
                     Inr (Goto_finish,
                          l2\<lparr>instr := (instr l2)\<lparr>opcode := Some opc, operand1 := load_value\<rparr>\<rparr>,
                          advance 1 s1)))))
      else Inr (Fall_through, l, s))"

text \<open>The block \<^verbatim>\<open>if (token.substr(0, 2) == "ST")\<close>.\<close>

definition handle_store :: "locals \<Rightarrow> asm_state \<Rightarrow> stage_result" where
  "handle_store l s =
     (if take 2 (token l) = ''ST'' then
        and_then (str_back (token l)) (\<lambda>store_from.
          let l1 = read_token l; s1 = advance 1 s
          in and_then (at st_addresses store_from) (\<lambda>opc.
             and_then (substr1 (token l1)) (\<lambda>digits.
             and_then (stoul_hex digits) (\<lambda>v.
               let store_address = (word_of_int v :: u16)
               in Inr (Goto_finish,
                       l1\<lparr>instr := (instr l1)\<lparr>opcode := Some opc,
                            operand1 := high_byte store_address,
                            operand2 := low_byte store_address\<rparr>\<rparr>,
                       advance 1 s1)))))
      else Inr (Fall_through, l, s))"

text \<open>
  The block for ADD and SUB. Its register-register branch has no \<^verbatim>\<open>goto finish\<close>, and
  a first operand that is not a register leaves the block with nothing assigned: both
  fall through to the blocks below.
\<close>

definition handle_arithmetic :: "locals \<Rightarrow> asm_state \<Rightarrow> stage_result" where
  "handle_arithmetic l s =
     (if take 3 (token l) = ''ADD'' \<or> take 3 (token l) = ''SUB'' then
        (let operation = take 3 (token l); l1 = read_token l; s1 = advance 1 s;
             (isreg, tok) = is_register (token l1); l2 = l1\<lparr>token := tok\<rparr>
         in if isreg then
              and_then (str_back tok) (\<lambda>c.
              and_then (at register_codes c) (\<lambda>target_register.
                let l3 = read_token l2; s2 = advance 1 s1;
                    (isreg2, tok2) = is_register (token l3); l4 = l3\<lparr>token := tok2\<rparr>
                in if isreg2 then
                     and_then (str_back tok2) (\<lambda>c2.
                     and_then (at register_codes c2) (\<lambda>source_register.
                       Inr (Fall_through,
                            l4\<lparr>instr := (instr l4)\<lparr>
                                 opcode := Some (if operation = ''ADD'' then 0x0B else 0x0C),
                                 operand1 := target_register, operand2 := source_register\<rparr>\<rparr>,
                            s2)))
                   else
                     and_then (get_value tok2) (\<lambda>v.
                       Inr (Goto_finish,
                            l4\<lparr>instr := (instr l4)\<lparr>
                                 opcode := Some (if operation = ''ADD'' then 0x0D else 0x0E),
                                 operand1 := target_register, operand2 := v\<rparr>\<rparr>,
                            s2))))
            else Inr (Fall_through, l2, s1))
      else Inr (Fall_through, l, s))"

text \<open>The block \<^verbatim>\<open>if (bitwise_operations.find(token) != bitwise_operations.end())\<close>.\<close>

definition handle_bitwise :: "locals \<Rightarrow> asm_state \<Rightarrow> stage_result" where
  "handle_bitwise l s =
     (if bitwise_operations (token l) \<noteq> None then
        (let operation = take 3 (token l); l1 = read_token l; s1 = advance 1 s;
             (isreg, tok) = is_register (token l1); l2 = l1\<lparr>token := tok\<rparr>
         in if isreg then
              and_then (str_back tok) (\<lambda>c.
              and_then (at register_codes c) (\<lambda>target_register.
              and_then (at bitwise_operations operation) (\<lambda>opc.
                let l3 = l2\<lparr>instr := (instr l2)\<lparr>opcode := Some opc, operand1 := target_register\<rparr>\<rparr>
                in if operation = ''NOT'' then Inr (Goto_finish, l3, s1)
                   else
                     (let l4 = read_token l3; s2 = advance 1 s1;
                          (isreg2, tok2) = is_register (token l4); l5 = l4\<lparr>token := tok2\<rparr>
                      in if isreg2 then
                           and_then (str_back tok2) (\<lambda>c2.
                           and_then (at register_codes c2) (\<lambda>source_register.
                             Inr (Goto_finish,
                                  l5\<lparr>instr := (instr l5)\<lparr>operand2 := source_register\<rparr>\<rparr>, s2)))
                         else Inr (Fall_through, l5, s2)))))
            else Inr (Fall_through, l2, s1))
      else Inr (Fall_through, l, s))"

text \<open>The block \<^verbatim>\<open>if (token == "CP")\<close>, which adds 2 to the counter at once.\<close>

definition handle_compare :: "locals \<Rightarrow> asm_state \<Rightarrow> stage_result" where
  "handle_compare l s =
     (if token l = ''CP'' then
        (let l1 = read_token l; s1 = advance 2 s
         in and_then (get_value (token l1)) (\<lambda>v.
              Inr (Goto_finish, l1\<lparr>instr := (instr l1)\<lparr>opcode := Some 0x18, operand1 := v\<rparr>\<rparr>, s1)))
      else Inr (Fall_through, l, s))"

text \<open>
  The block \<^verbatim>\<open>if (token.back() == ':')\<close>: the counter goes up by one unless it is 0,
  the label is inserted with the new counter, and a waiting reference is patched.
\<close>

definition handle_label :: "locals \<Rightarrow> asm_state \<Rightarrow> stage_result" where
  "handle_label l s =
     and_then (str_back (token l)) (\<lambda>c.
       if c = CHR '':'' then
         (let tok = butlast (token l);
              l1 = l\<lparr>token := tok, parsed := (parsed l)\<lparr>label := tok, is_label := True\<rparr>\<rparr>;
              s1 = advance (if address s = 0 then 0 else 1) s;
              s2 = s1\<lparr>labels := map_insert (labels s1) tok (address s1)\<rparr>
          in and_then (check_waiting_labels tok (address s2) s2) (\<lambda>s3.
               Inr (Goto_finish, l1, s3)))
       else Inr (Fall_through, l, s))"

text \<open>
  The block \<^verbatim>\<open>if (token.substr(0, 3) == "JMP")\<close>. The conditional form looks the label up
  after two increments of the counter, the unconditional form after one.
\<close>

definition handle_jump :: "locals \<Rightarrow> asm_state \<Rightarrow> stage_result" where
  "handle_jump l s =
     (if take 3 (token l) = ''JMP'' then
        (let l1 = read_token l; s1 = advance 1 s;
             (isjc, tok) = is_jump_case (token l1); l2 = l1\<lparr>token := tok\<rparr>
         in if isjc then
              and_then (at jump_cases tok) (\<lambda>jump_case.
                let l3 = read_token l2; s2 = advance 1 s1;
                    (jump_address, s3) = get_label_address (address s2) (token l3) s2
                in Inr (Goto_finish,
                        l3\<lparr>instr := (instr l3)\<lparr>opcode := Some jump_case,
                             operand1 := high_byte jump_address,
                             operand2 := low_byte jump_address\<rparr>\<rparr>,
                        s3))
            else
              (let (jump_address, s2) = get_label_address (address s1) tok s1
               in Inr (Goto_finish,
                       l2\<lparr>instr := (instr l2)\<lparr>opcode := Some 0x13,
                            operand1 := high_byte jump_address,
                            operand2 := low_byte jump_address\<rparr>\<rparr>,
                       advance 1 s2)))
      else Inr (Fall_through, l, s))"

text \<open>The block \<^verbatim>\<open>if (token == "NOP")\<close>; after it comes the label \<^verbatim>\<open>finish\<close> anyway.\<close>

definition handle_nop :: "locals \<Rightarrow> asm_state \<Rightarrow> stage_result" where
  "handle_nop l s =
     (if token l = ''NOP'' then
        Inr (Goto_finish, l\<lparr>instr := (instr l)\<lparr>opcode := Some 0x00\<rparr>\<rparr>, s)
      else Inr (Fall_through, l, s))"

text \<open>Run the next block unless the previous one has jumped to \<^verbatim>\<open>finish\<close>.\<close>

definition next_block :: "stage_result \<Rightarrow> (locals \<Rightarrow> asm_state \<Rightarrow> stage_result) \<Rightarrow> stage_result" where
  "next_block r f =
     (case r of
        Inl e \<Rightarrow> Inl e
      | Inr (Goto_finish, l, s) \<Rightarrow> Inr (Goto_finish, l, s)
      | Inr (Fall_through, l, s) \<Rightarrow> f l s)"

text \<open>
  The code at \<^verbatim>\<open>finish\<close>: a label line returns at once; an instruction line records the
  counter and the size, and the counter goes up by one more.
\<close>

definition finish :: "u16 \<Rightarrow> locals \<Rightarrow> asm_state \<Rightarrow> ParsedLine \<times> asm_state" where
  "finish start_address l s =
     (if is_label (parsed l) then (parsed l, s)
      else ((parsed l)\<lparr>pl_address := address s, pl_size := address s - start_address,
                       instruction := instr l\<rparr>,
            advance 1 s))"

text \<open>The blocks in the order of the source, from the first token to \<^verbatim>\<open>finish\<close>.\<close>

definition blocks :: "locals \<Rightarrow> asm_state \<Rightarrow> stage_result" where
  "blocks l0 s =
     next_block (next_block (next_block (next_block (next_block (next_block (next_block
       (handle_load l0 s) handle_store) handle_arithmetic) handle_bitwise)
       handle_compare) handle_label) handle_jump) handle_nop"

definition parse_line :: "string \<Rightarrow> asm_state \<Rightarrow> asm_error + (ParsedLine \<times> asm_state)" where
  "parse_line line s =
     (let start_address = address s;
          l0 = read_token \<lparr>token = [], iss = tokenize line, instr = new_Instruction,
                           parsed = new_ParsedLine\<rparr>
      in and_then (blocks l0 s) (\<lambda>(f, l, s'). Inr (finish start_address l s')))"

subsection \<open>main\<close>

text \<open>
  One turn of the \<^verbatim>\<open>while (std::getline(file, line))\<close> loop. The two tests
  \<^verbatim>\<open>instruction.operandN != Instruction::EMPTY_OPERAND\<close> compare a \<^verbatim>\<open>uint8_t\<close>, promoted
  to \<^verbatim>\<open>int\<close>, with -1.

  When no block of \<^verbatim>\<open>parse_line\<close> has assigned \<^verbatim>\<open>opcode\<close>, the field holds an
  indeterminate value. It is an \<^verbatim>\<open>unsigned char\<close>, so that copying it is no error, and
  \<^verbatim>\<open>main\<close> pushes it like any other opcode. The byte that is then written is the
  parameter \<open>unassigned\<close>: every result below holds for each value of it.
\<close>

definition assemble_line :: "u8 \<Rightarrow> string \<Rightarrow> asm_state \<Rightarrow> asm_error + asm_state" where
  "assemble_line unassigned raw s =
     (let line = clean_line raw
      in if line = [] then Inr s
         else
           and_then (parse_line line s) (\<lambda>(parsed_line, s1).
             let i = instruction parsed_line
             in if is_label parsed_line then Inr s1
                else
                  (let opc = (case opcode i of None \<Rightarrow> unassigned | Some assigned \<Rightarrow> assigned);
                       p1 = program s1 @ [opc];
                       p2 = (if uint (operand1 i) \<noteq> EMPTY_OPERAND then p1 @ [operand1 i] else p1);
                       p3 = (if uint (operand2 i) \<noteq> EMPTY_OPERAND then p2 @ [operand2 i] else p2)
                   in Inr (s1\<lparr>program := p3\<rparr>))))"

fun assemble_lines :: "u8 \<Rightarrow> string list \<Rightarrow> asm_state \<Rightarrow> asm_error + asm_state" where
  "assemble_lines unassigned [] s = Inr s"
| "assemble_lines unassigned (raw # rest) s =
     (case assemble_line unassigned raw s of
        Inl e \<Rightarrow> Inl e | Inr s' \<Rightarrow> assemble_lines unassigned rest s')"

text \<open>
  \<^verbatim>\<open>main\<close> of assembler.cpp on the lines of the input file: the bytes written to the
  output file and the number printed as "Program size".
\<close>

definition assembler_main :: "u8 \<Rightarrow> string list \<Rightarrow> asm_error + (u8 list \<times> u16)" where
  "assembler_main unassigned lines =
     (case assemble_lines unassigned lines asm_init of
        Inl e \<Rightarrow> Inl e | Inr s \<Rightarrow> Inr (program s, address s))"

subsection \<open>A class of lines\<close>

text \<open>
  The lines whose first token sends \<^verbatim>\<open>parse_line\<close> into the load block, the store
  block, the compare block or the jump block, into the ADD/SUB block with a register as
  first operand, or into the bitwise block as AND, OR or XOR with registers as operands.
  It names the inputs of one of the results below; the assembler itself has no such test.
\<close>

definition three_step_line :: "string \<Rightarrow> bool" where
  "three_step_line raw \<longleftrightarrow>
     (case tokenize (clean_line raw) of
        [] \<Rightarrow> False
      | t # ts \<Rightarrow>
          take 2 t = ''LD'' \<or> take 2 t = ''ST'' \<or> t = ''CP''
          \<or> (take 3 t = ''JMP'' \<and> last t \<noteq> CHR '':'')
          \<or> ((take 3 t = ''ADD'' \<or> take 3 t = ''SUB'')
              \<and> (case ts of [] \<Rightarrow> False | r # rest \<Rightarrow> fst (is_register r)))
          \<or> ((t = ''AND'' \<or> t = ''OR'' \<or> t = ''XOR'')
              \<and> (case ts of
                    [] \<Rightarrow> False
                  | r # rest \<Rightarrow>
                      fst (is_register r)
                      \<and> (case rest of [] \<Rightarrow> True | r2 # rest2 \<Rightarrow> fst (is_register r2)))))"

section \<open>Properties of the virtual machine\<close>

subsection \<open>Auxiliary facts\<close>

lemma above_isa_table:
  "(0x18::u8) < opc \<Longrightarrow>
   opc \<notin> set [0x00, 0x01, 0x02, 0x03, 0x04, 0x05, 0x06, 0x07, 0x08, 0x09, 0x0A, 0x0B, 0x0C,
     0x0D, 0x0E, 0x0F, 0x10, 0x11, 0x12, 0x13, 0x14, 0x15, 0x16, 0x17, 0x18]"
  by (simp add: word_less_nat_alt) unat_arith

lemma fetch_two:
  assumes "length (rom s) = 4096" and "unat (PC s) + 1 < 4096"
  shows "fetch s = Inr (rom s ! unat (PC s), s\<lparr>PC := PC s + 1\<rparr>)"
    and "fetch (s\<lparr>PC := PC s + 1\<rparr>) = Inr (rom s ! (unat (PC s) + 1), s\<lparr>PC := PC s + 2\<rparr>)"
proof -
  show "fetch s = Inr (rom s ! unat (PC s), s\<lparr>PC := PC s + 1\<rparr>)"
    using assms by (simp add: fetch_def)
  have "unat (PC s + 1) = unat (PC s) + 1"
    using assms(2) by (simp add: unat_word_ariths)
  then show "fetch (s\<lparr>PC := PC s + 1\<rparr>) = Inr (rom s ! (unat (PC s) + 1), s\<lparr>PC := PC s + 2\<rparr>)"
    using assms by (simp add: fetch_def)
qed

lemma reg_reg_op_result:
  assumes "length (rom s) = 4096" and "length (registers s) = 4" and "unat (PC s) + 1 < 4096"
    and "rom s ! unat (PC s) = t" and "rom s ! (unat (PC s) + 1) = x"
    and "unat t < 4" and "unat x < 4"
  shows "reg_reg_op f s = Inr (None, s\<lparr>PC := PC s + 2,
           registers := (registers s)[unat t := f (registers s ! unat t) (registers s ! unat x)]\<rparr>)"
  using assms fetch_two[OF assms(1) assms(3)]
  by (simp add: reg_reg_op_def get_reg_def set_reg_def)

lemma reg_value_op_result:
  assumes "length (rom s) = 4096" and "length (registers s) = 4" and "unat (PC s) + 1 < 4096"
    and "rom s ! unat (PC s) = t" and "rom s ! (unat (PC s) + 1) = x" and "unat t < 4"
  shows "reg_value_op f s = Inr (None, s\<lparr>PC := PC s + 2,
           registers := (registers s)[unat t := f (registers s ! unat t) x]\<rparr>)"
  using assms fetch_two[OF assms(1) assms(3)]
  by (simp add: reg_value_op_def get_reg_def set_reg_def)

lemma vm_sized_init: "vm_sized VM_init"
  by (simp add: vm_sized_def VM_init_def)

lemma vm_sized_load_program:
  "vm_sized s \<Longrightarrow> load_program p s = Inr s' \<Longrightarrow> vm_sized s'"
  by (auto simp: vm_sized_def load_program_def split: if_splits)

lemma fetch_Inr:
  "fetch s = Inr (b, s1) \<longleftrightarrow>
     unat (PC s) < length (rom s) \<and> b = rom s ! unat (PC s) \<and> s1 = s\<lparr>PC := PC s + 1\<rparr>"
  by (auto simp: fetch_def)

lemma fetch16_Inr:
  "fetch16 s = Inr (w, s2) \<Longrightarrow>
     ram s2 = ram s \<and> rom s2 = rom s \<and> registers s2 = registers s \<and> console s2 = console s
     \<and> PC s2 = PC s + 2"
  by (auto simp: fetch16_def fetch_Inr split: sum.splits)

lemma get_reg_Inr:
  "get_reg s r = Inr v \<longleftrightarrow> unat r < length (registers s) \<and> v = registers s ! unat r"
  by (auto simp: get_reg_def)

lemma set_reg_Inr:
  "set_reg s r v = Inr s' \<longleftrightarrow>
     unat r < length (registers s) \<and> s' = s\<lparr>registers := (registers s)[unat r := v]\<rparr>"
  by (auto simp: set_reg_def)

lemma unat_neq_3: "(r::u8) \<noteq> 3 \<Longrightarrow> unat r \<noteq> 3"
proof
  assume "r \<noteq> 3" and "unat r = 3"
  then have "word_of_nat (unat r) = (word_of_nat 3 :: u8)" by simp
  then have "r = 3" by simp
  with \<open>r \<noteq> 3\<close> show False by simp
qed

lemma load_value_flags:
  "load_value d s = Inr (r, s') \<Longrightarrow> unat d \<noteq> 3 \<Longrightarrow> registers s' ! 3 = registers s ! 3"
  by (auto simp: load_value_def fetch_Inr set_reg_Inr split: sum.splits)

lemma load_register_flags:
  "load_register d s = Inr (r, s') \<Longrightarrow> unat d \<noteq> 3 \<Longrightarrow> registers s' ! 3 = registers s ! 3"
  by (auto simp: load_register_def fetch_Inr set_reg_Inr get_reg_Inr split: sum.splits)

lemma store_register_flags:
  "store_register d s = Inr (r, s') \<Longrightarrow> registers s' = registers s"
  by (auto simp: store_register_def Let_def get_reg_Inr dest!: fetch16_Inr
      split: sum.splits if_splits)

lemma load_address_flags:
  "load_address s = Inr (r, s') \<Longrightarrow> registers s' ! 3 = registers s ! 3"
  by (auto simp: load_address_def Let_def set_reg_Inr A_REG_def dest!: fetch16_Inr
      split: sum.splits if_splits)

lemma reg_reg_op_flags:
  assumes "reg_reg_op f s = Inr (r, s')" and "rom s ! unat (PC s) \<noteq> 3"
  shows "registers s' ! 3 = registers s ! 3"
proof -
  from assms(2) have "unat (rom s ! unat (PC s)) \<noteq> 3"
    by (rule unat_neq_3)
  with assms(1) show ?thesis
    by (auto simp: reg_reg_op_def fetch_Inr set_reg_Inr get_reg_Inr split: sum.splits)
qed

lemma reg_value_op_flags:
  assumes "reg_value_op f s = Inr (r, s')" and "rom s ! unat (PC s) \<noteq> 3"
  shows "registers s' ! 3 = registers s ! 3"
proof -
  from assms(2) have "unat (rom s ! unat (PC s)) \<noteq> 3"
    by (rule unat_neq_3)
  with assms(1) show ?thesis
    by (auto simp: reg_value_op_def fetch_Inr set_reg_Inr get_reg_Inr split: sum.splits)
qed

lemma not_register_flags:
  assumes "not_register s = Inr (r, s')" and "rom s ! unat (PC s) \<noteq> 3"
  shows "registers s' ! 3 = registers s ! 3"
proof -
  from assms(2) have "unat (rom s ! unat (PC s)) \<noteq> 3"
    by (rule unat_neq_3)
  with assms(1) show ?thesis
    by (auto simp: not_register_def fetch_Inr set_reg_Inr get_reg_Inr split: sum.splits)
qed

lemma jump_flags:
  "jump taken adjust s = Inr (r, s') \<Longrightarrow> registers s' = registers s"
  "jump_direct s = Inr (r, s') \<Longrightarrow> registers s' = registers s"
  by (auto simp: jump_def jump_direct_def Let_def get_reg_Inr dest!: fetch16_Inr
      split: sum.splits if_splits)

text \<open>
  With a target register id other than 3 in the arithmetic and bitwise opcodes, every
  opcode but 0x18 leaves the flag register as it was.
\<close>

lemma flags_kept_by_other_opcodes:
  assumes "execute opc s = Inr (r, s')" and "opc \<noteq> 0x18"
    and "opc \<in> {0x0B, 0x0C, 0x0D, 0x0E, 0x0F, 0x10, 0x11, 0x12} \<longrightarrow> rom s ! unat (PC s) \<noteq> 3"
  shows "registers s' ! 3 = registers s ! 3"
  using assms
  by (auto simp: execute_def A_REG_def split: if_splits
      dest: load_value_flags load_register_flags store_register_flags load_address_flags
        reg_reg_op_flags reg_value_op_flags not_register_flags jump_flags)

lemma sizes_kept:
  "load_value d s = Inr (r, s') \<Longrightarrow>
     length (ram s') = length (ram s) \<and> length (rom s') = length (rom s)
     \<and> length (registers s') = length (registers s)"
  "load_register d s = Inr (r, s') \<Longrightarrow>
     length (ram s') = length (ram s) \<and> length (rom s') = length (rom s)
     \<and> length (registers s') = length (registers s)"
  "store_register d s = Inr (r, s') \<Longrightarrow>
     length (ram s') = length (ram s) \<and> length (rom s') = length (rom s)
     \<and> length (registers s') = length (registers s)"
  "load_address s = Inr (r, s') \<Longrightarrow>
     length (ram s') = length (ram s) \<and> length (rom s') = length (rom s)
     \<and> length (registers s') = length (registers s)"
  "reg_reg_op f s = Inr (r, s') \<Longrightarrow>
     length (ram s') = length (ram s) \<and> length (rom s') = length (rom s)
     \<and> length (registers s') = length (registers s)"
  "reg_value_op f s = Inr (r, s') \<Longrightarrow>
     length (ram s') = length (ram s) \<and> length (rom s') = length (rom s)
     \<and> length (registers s') = length (registers s)"
  "not_register s = Inr (r, s') \<Longrightarrow>
     length (ram s') = length (ram s) \<and> length (rom s') = length (rom s)
     \<and> length (registers s') = length (registers s)"
  "jump taken adjust s = Inr (r, s') \<Longrightarrow>
     length (ram s') = length (ram s) \<and> length (rom s') = length (rom s)
     \<and> length (registers s') = length (registers s)"
  "jump_direct s = Inr (r, s') \<Longrightarrow>
     length (ram s') = length (ram s) \<and> length (rom s') = length (rom s)
     \<and> length (registers s') = length (registers s)"
  "compare s = Inr (r, s') \<Longrightarrow>
     length (ram s') = length (ram s) \<and> length (rom s') = length (rom s)
     \<and> length (registers s') = length (registers s)"
  by (auto simp: jump_direct_def load_value_def load_register_def store_register_def
      load_address_def reg_reg_op_def reg_value_op_def not_register_def jump_def compare_def
      Let_def fetch_Inr set_reg_Inr get_reg_Inr
      dest!: fetch16_Inr split: sum.splits if_splits)

text \<open>The sizes that \<open>vm_sized\<close> names are kept by every step.\<close>

lemma vm_sized_execute:
  assumes "vm_sized s" and "execute opc s = Inr (r, s')"
  shows "vm_sized s'"
proof -
  from assms(2) have "length (ram s') = length (ram s) \<and> length (rom s') = length (rom s)
     \<and> length (registers s') = length (registers s)"
    by (auto simp: execute_def split: if_splits dest: sizes_kept)
  with assms(1) show ?thesis by (simp add: vm_sized_def)
qed

lemma low_byte_of_pair: "(word_of_int (push_bit 8 (uint (hi::u8)) OR uint (lo::u8)) :: u8) = lo"
  by (rule bit_word_eqI) (auto simp: bit_simps)

lemma fetch16_result:
  assumes "length (rom s) = 4096" and "unat (PC s) + 1 < 4096"
  shows "fetch16 s = Inr (push_bit 8 (uint (rom s ! unat (PC s))) OR uint (rom s ! (unat (PC s) + 1)),
                          s\<lparr>PC := PC s + 2\<rparr>)"
  using fetch_two[OF assms] by (simp add: fetch16_def)

lemma jump_result:
  assumes "vm_sized s" and "unat (PC s) + 1 < 4096"
  shows "jump taken adjust s =
     Inr (None, if taken (registers s ! 3)
                then s\<lparr>PC := word_of_int (uint (rom s ! (unat (PC s) + 1)) - adjust)\<rparr>
                else s\<lparr>PC := PC s + 2\<rparr>)"
proof -
  from assms(1) have sz: "length (rom s) = 4096" "length (registers s) = 4"
    by (simp_all add: vm_sized_def)
  show ?thesis
    using sz by (simp add: jump_def fetch16_result[OF sz(1) assms(2)] low_byte_of_pair
        get_reg_def F_REG_def)
qed

text \<open>
  What the four conditional jumps do on any machine whose two operand bytes lie inside the
  ROM: a taken jump puts the second operand byte alone into PC, less one for opcode 0x15;
  a jump that is not taken leaves PC behind the two operand bytes.
\<close>

lemma conditional_jump_steps:
  assumes "vm_sized s" and "unat (PC s) + 1 < 4096"
  shows "execute 0x14 s =
           Inr (None, if registers s ! 3 AND ZeroMask \<noteq> 0
                      then s\<lparr>PC := ucast (rom s ! (unat (PC s) + 1))\<rparr>
                      else s\<lparr>PC := PC s + 2\<rparr>)"
    and "execute 0x15 s =
           Inr (None, if registers s ! 3 AND ZeroMask = 0
                      then s\<lparr>PC := ucast (rom s ! (unat (PC s) + 1)) - 1\<rparr>
                      else s\<lparr>PC := PC s + 2\<rparr>)"
    and "execute 0x16 s =
           Inr (None, if isBitSet (uint (registers s ! 3)) 1
                      then s\<lparr>PC := ucast (rom s ! (unat (PC s) + 1))\<rparr>
                      else s\<lparr>PC := PC s + 2\<rparr>)"
    and "execute 0x17 s =
           Inr (None, if \<not> isBitSet (uint (registers s ! 3)) 1
                      then s\<lparr>PC := ucast (rom s ! (unat (PC s) + 1))\<rparr>
                      else s\<lparr>PC := PC s + 2\<rparr>)"
  by (simp_all add: execute_def jump_result[OF assms])

subsection \<open>Arithmetic opcodes\<close>

text \<open>
  C1, as the code has it. \<open>s\<close> is the machine after the opcode byte has been fetched,
  \<open>t\<close> and \<open>x\<close> are the two operand bytes at PC and PC + 1, and the register ids are
  within the register array. Opcode 0x0C (SUB register, register) leaves
  \<open>target AND NOT source\<close> in the target register and opcode 0x0B (ADD register, register)
  leaves \<open>target OR source\<close>. Opcode 0x0D (ADD register, value) is
  \<^verbatim>\<open>registers[reg] += value\<close>: it leaves the sum modulo 256 of the target and the
  immediate, which is integer addition and not \<open>target OR immediate\<close>. In all three PC
  ends two bytes further and nothing else changes.
\<close>

theorem arithmetic_semantics:
  assumes "vm_sized s" and "unat (PC s) + 1 < 4096"
    and "rom s ! unat (PC s) = t" and "rom s ! (unat (PC s) + 1) = x" and "unat t < 4"
  shows "(unat x < 4 \<longrightarrow> execute 0x0C s = Inr (None, s\<lparr>PC := PC s + 2,
            registers := (registers s)[unat t := registers s ! unat t AND NOT (registers s ! unat x)]\<rparr>))
       \<and> (unat x < 4 \<longrightarrow> execute 0x0B s = Inr (None, s\<lparr>PC := PC s + 2,
            registers := (registers s)[unat t := registers s ! unat t OR registers s ! unat x]\<rparr>))
       \<and> execute 0x0D s = Inr (None, s\<lparr>PC := PC s + 2,
            registers := (registers s)[unat t := registers s ! unat t + x]\<rparr>)
       \<and> unat (registers s ! unat t + x) = (unat (registers s ! unat t) + unat x) mod 256"
proof -
  from assms(1) have sz: "length (rom s) = 4096" "length (registers s) = 4"
    by (simp_all add: vm_sized_def)
  have e: "execute 0x0C s = reg_reg_op (\<lambda>a b. a AND NOT b) s"
    "execute 0x0B s = reg_reg_op (\<lambda>a b. a OR b) s"
    "execute 0x0D s = reg_value_op (\<lambda>a v. a + v) s"
    by (simp_all add: execute_def)
  show ?thesis
    unfolding e
    using reg_reg_op_result[OF sz assms(2-5)] reg_value_op_result[OF sz assms(2-5)]
    by (simp add: unat_word_ariths)
qed

text \<open>
  Witness: registers A = 5 and B = 3, operand bytes 00 01. SUB A, B leaves 4, ADD A, B
  leaves 7, and ADD A, 1 leaves 6.
\<close>

theorem arithmetic_semantics_witness:
  "execute 0x0C (VM_init\<lparr>rom := [0, 1] @ replicate 4094 0, registers := [5, 3, 0, 0]\<rparr>)
     = Inr (None, VM_init\<lparr>rom := [0, 1] @ replicate 4094 0, registers := [4, 3, 0, 0], PC := 2\<rparr>)
   \<and> execute 0x0B (VM_init\<lparr>rom := [0, 1] @ replicate 4094 0, registers := [5, 3, 0, 0]\<rparr>)
     = Inr (None, VM_init\<lparr>rom := [0, 1] @ replicate 4094 0, registers := [7, 3, 0, 0], PC := 2\<rparr>)
   \<and> execute 0x0D (VM_init\<lparr>rom := [0, 1] @ replicate 4094 0, registers := [5, 3, 0, 0]\<rparr>)
     = Inr (None, VM_init\<lparr>rom := [0, 1] @ replicate 4094 0, registers := [6, 3, 0, 0], PC := 2\<rparr>)"
  using arithmetic_semantics
    [of "VM_init\<lparr>rom := [0, 1] @ replicate 4094 0, registers := [5, 3, 0, 0]\<rparr>" 0 1]
  by (simp add: vm_sized_def VM_init_def)

text \<open>
  C1 as stated fails: in the ROM bytes 01 01 0D 00 01 (LDA 1; ADD A, 1) on the initial
  machine, the step of LDA 1 leaves A = 1 and the step of opcode 0x0D then leaves A = 2,
  where \<open>1 OR 1\<close> would be 1.
\<close>

theorem add_immediate_counterexample:
  "step (VM_init\<lparr>rom := [0x01, 0x01, 0x0D, 0x00, 0x01] @ replicate 4091 0\<rparr>)
     = Inr (None, VM_init\<lparr>rom := [0x01, 0x01, 0x0D, 0x00, 0x01] @ replicate 4091 0,
                          registers := [1, 0, 0, 0], PC := 2\<rparr>)
   \<and> step (VM_init\<lparr>rom := [0x01, 0x01, 0x0D, 0x00, 0x01] @ replicate 4091 0,
                     registers := [1, 0, 0, 0], PC := 2\<rparr>)
     = Inr (None, VM_init\<lparr>rom := [0x01, 0x01, 0x0D, 0x00, 0x01] @ replicate 4091 0,
                          registers := [2, 0, 0, 0], PC := 5\<rparr>)
   \<and> (1::u8) OR 1 \<noteq> 2"
  by (simp add: step_def execute_def load_value_def reg_value_op_def fetch_def get_reg_def
      set_reg_def VM_init_def A_REG_def)

subsection \<open>Conditional jumps\<close>

text \<open>
  C3, evaluated at two inputs. The ROM bytes 17 01 05 (JMP NC with the big-endian target
  0x0105) on the initial machine, where carry is clear: the jump is taken and PC becomes
  0x0005, because the target goes through \<^verbatim>\<open>uint8_t value\<close>. The ROM bytes 15 00 09
  (JMP NZ with target 0x0009) on the initial machine, where zero is clear: PC becomes 8,
  because case 0x15 assigns \<^verbatim>\<open>value - 1\<close>.
\<close>

theorem conditional_jump_divergence:
  "fetch (VM_init\<lparr>rom := [0x17, 0x01, 0x05] @ replicate 4093 0\<rparr>)
     = Inr (0x17, VM_init\<lparr>rom := [0x17, 0x01, 0x05] @ replicate 4093 0, PC := 1\<rparr>)
   \<and> execute 0x17 (VM_init\<lparr>rom := [0x17, 0x01, 0x05] @ replicate 4093 0, PC := 1\<rparr>)
     = Inr (None, VM_init\<lparr>rom := [0x17, 0x01, 0x05] @ replicate 4093 0, PC := 0x0005\<rparr>)
   \<and> fetch (VM_init\<lparr>rom := [0x15, 0x00, 0x09] @ replicate 4093 0\<rparr>)
     = Inr (0x15, VM_init\<lparr>rom := [0x15, 0x00, 0x09] @ replicate 4093 0, PC := 1\<rparr>)
   \<and> execute 0x15 (VM_init\<lparr>rom := [0x15, 0x00, 0x09] @ replicate 4093 0, PC := 1\<rparr>)
     = Inr (None, VM_init\<lparr>rom := [0x15, 0x00, 0x09] @ replicate 4093 0, PC := 0x0008\<rparr>)"
  by (simp add: execute_def jump_def fetch16_def fetch_def get_reg_def VM_init_def F_REG_def
      isBitSet_def ZeroMask_def)

subsection \<open>Compare\<close>

text \<open>
  C5. \<open>s\<close> is the machine after the opcode 0x18 has been fetched, with the operand byte
  \<open>v\<close> at PC inside the ROM; \<open>a\<close> is the accumulator. After the step the flag register
  has the zero bit set exactly when \<open>v = a\<close>, the carry bit set exactly when \<open>v > a\<close>,
  and both bits clear exactly when \<open>a > v\<close>.
\<close>

theorem compare_flags:
  assumes "unat (PC s) < length (rom s)" and "length (registers s) = 4"
  shows "\<exists>s'. execute 0x18 s = Inr (None, s') \<and>
     (let a = registers s ! 0; v = rom s ! unat (PC s); F = registers s' ! 3 in
       (F AND ZeroMask \<noteq> 0 \<longleftrightarrow> v = a) \<and> (F AND CarryMask \<noteq> 0 \<longleftrightarrow> v > a) \<and>
       (F AND ZeroMask = 0 \<and> F AND CarryMask = 0 \<longleftrightarrow> a > v))"
proof -
  let ?a = "registers s ! 0" and ?v = "rom s ! unat (PC s)"
  note defs = execute_def compare_def fetch_def get_reg_def set_reg_def A_REG_def F_REG_def
    ZeroMask_def CarryMask_def Let_def
  consider "?a = ?v" | "?a < ?v" | "?v < ?a"
    by (metis linorder_neqE)
  then show ?thesis
  proof cases
    case 1
    then show ?thesis using assms by (auto simp: defs)
  next
    case 2
    then have "?a \<noteq> ?v" "\<not> ?v < ?a" by auto
    with 2 show ?thesis using assms by (auto simp: defs)
  next
    case 3
    then have "?a \<noteq> ?v" "\<not> ?a < ?v" by auto
    with 3 show ?thesis using assms by (auto simp: defs)
  qed
qed

text \<open>Witness: accumulator 5 compared with the operand 9 sets carry and clears zero.\<close>

theorem compare_flags_witness:
  "\<exists>s'. execute 0x18 (VM_init\<lparr>rom := [9] @ replicate 4095 0, registers := [5, 0, 0, 1]\<rparr>)
          = Inr (None, s') \<and>
        registers s' ! 3 AND ZeroMask = 0 \<and> registers s' ! 3 AND CarryMask \<noteq> 0"
  using compare_flags
    [of "VM_init\<lparr>rom := [9] @ replicate 4095 0, registers := [5, 0, 0, 1]\<rparr>"]
  by (auto simp: VM_init_def Let_def)

subsection \<open>Opcodes outside the table\<close>

text \<open>
  C6, as the code has it. An opcode byte above 0x18 other than 0xFF takes the
  \<^verbatim>\<open>default\<close> branch: the opcode (and nothing else, so not the PC) is printed and
  \<^verbatim>\<open>execute\<close> returns -1, the value that opcode 0x00 returns too, with registers,
  memory and PC as they were; \<^verbatim>\<open>run\<close> then leaves its loop with PC just past the
  opcode byte, as it does after a halt. There is no faulted state: \<^verbatim>\<open>run\<close> hands
  nothing to its caller, and the printed opcode is all that tells the stop from a halt. The
  byte 0xFF does not take the \<^verbatim>\<open>default\<close> branch, because the switch has a case for
  it; the statement says nothing about that byte.
\<close>

theorem unknown_opcode_stops:
  "(0x18 < opc \<and> opc \<noteq> 0xFF \<longrightarrow>
      execute opc s = Inr (Some (- 1), s\<lparr>console := console s @ [opc]\<rparr>)
      \<and> (unat (PC s) < length (rom s) \<and> rom s ! unat (PC s) = opc \<longrightarrow>
           run s = Some (Inr (s\<lparr>PC := PC s + 1, console := console s @ [opc]\<rparr>))))
   \<and> execute 0x00 s = Inr (Some (- 1), s)"
proof -
  have nop: "execute 0x00 s = Inr (Some (- 1), s)"
    by (simp add: execute_def)
  have unk: "execute opc t = Inr (Some (- 1), t\<lparr>console := console t @ [opc]\<rparr>)"
    if "0x18 < opc" "opc \<noteq> 0xFF" for t
    using above_isa_table[OF that(1)] that(2) by (simp add: execute_def)
  have stop: "run s = Some (Inr (s\<lparr>PC := PC s + 1, console := console s @ [opc]\<rparr>))"
    if "0x18 < opc" "opc \<noteq> 0xFF" "unat (PC s) < length (rom s)"
      "rom s ! unat (PC s) = opc"
    using that unk[OF that(1,2), of "s\<lparr>PC := PC s + 1\<rparr>"]
    by (subst run.simps) (simp add: step_def fetch_def)
  from nop unk stop show ?thesis by blast
qed

text \<open>
  Witness: the byte 0x19 at the start of the ROM of the initial machine.
\<close>

theorem unknown_opcode_stops_witness:
  "execute 0x19 (VM_init\<lparr>rom := [0x19] @ replicate 4095 0\<rparr>)
     = Inr (Some (- 1), VM_init\<lparr>rom := [0x19] @ replicate 4095 0, console := [0x19]\<rparr>)
   \<and> run (VM_init\<lparr>rom := [0x19] @ replicate 4095 0\<rparr>)
     = Some (Inr (VM_init\<lparr>rom := [0x19] @ replicate 4095 0, PC := 1, console := [0x19]\<rparr>))"
  using unknown_opcode_stops [of "0x19" "VM_init\<lparr>rom := [0x19] @ replicate 4095 0\<rparr>"]
  by (simp add: VM_init_def)

text \<open>
  C6 as stated fails at the byte 0x19: the program that is this one byte ends its run as
  the program that is the one byte 0x00 (the halt) does, with PC = 1 and with every
  register and memory cell as the constructor left them. No state of the machine is a
  faulted one and none holds the PC of the fault; the console holds the opcode.
\<close>

theorem unknown_opcode_counterexample:
  "vm_main [0x19]
     = Some (Inr (VM_init\<lparr>rom := [0x19] @ replicate 4095 0, PC := 1, console := [0x19]\<rparr>))
   \<and> vm_main [0x00]
     = Some (Inr (VM_init\<lparr>rom := [0x00] @ replicate 4095 0, PC := 1, console := []\<rparr>))"
  by (simp add: vm_main_def load_program_def run.simps step_def execute_def fetch_def
      VM_init_def)

subsection \<open>The flag register\<close>

text \<open>
  C9, evaluated at the ROM bytes 12 03 (NOT with register id 3) on the initial machine:
  no bounds or identity check stands between the operand byte and \<^verbatim>\<open>registers[reg]\<close>,
  so the step of the NOT opcode rewrites the flag register from 0x00 to 0xFF.
\<close>

theorem not_register_writes_flags:
  "step (VM_init\<lparr>rom := [0x12, 0x03] @ replicate 4094 0\<rparr>)
     = Inr (None, VM_init\<lparr>rom := [0x12, 0x03] @ replicate 4094 0,
                          registers := [0, 0, 0, 0xFF], PC := 2\<rparr>)"
  by (simp add: step_def execute_def not_register_def fetch_def get_reg_def set_reg_def
      VM_init_def)

section \<open>Properties of the assembler\<close>

subsection \<open>Auxiliary facts\<close>

lemma next_block_simps [simp]:
  "next_block (Inl e) f = Inl e"
  "next_block (Inr (Goto_finish, l, s)) f = Inr (Goto_finish, l, s)"
  "next_block (Inr (Fall_through, l, s)) f = f l s"
  by (simp_all add: next_block_def)

lemma and_then_simps [simp]:
  "and_then (Inl e) f = Inl e"
  "and_then (Inr x) f = f x"
  by (simp_all add: and_then_def)

lemma and_then_Inr:
  "and_then r f = Inr y \<longleftrightarrow> (\<exists>x. r = Inr x \<and> f x = Inr y)"
  by (cases r) simp_all

lemma get_label_address_keeps:
  "get_label_address a lbl s = (j, s') \<Longrightarrow> program s' = program s \<and> address s' = address s"
  by (auto simp: get_label_address_def split: option.splits)

lemma read_token_fields [simp]:
  "parsed (read_token l) = parsed l" "instr (read_token l) = instr l"
  by (simp_all add: read_token_def split: list.splits)

lemma advance_fields [simp]:
  "program (advance n s) = program s" "address (advance n s) = address s + n"
  "labels (advance n s) = labels s" "waiting_labels (advance n s) = waiting_labels s"
  by (simp_all add: advance_def)

lemma handle_load_keeps:
  "handle_load l s = Inr (f, l', s') \<Longrightarrow> program s' = program s \<and> parsed l' = parsed l"
  by (auto simp: handle_load_def and_then_Inr Let_def split_def split: if_splits)

lemma handle_store_keeps:
  "handle_store l s = Inr (f, l', s') \<Longrightarrow> program s' = program s \<and> parsed l' = parsed l"
  by (auto simp: handle_store_def and_then_Inr Let_def split: if_splits)

lemma handle_arithmetic_keeps:
  "handle_arithmetic l s = Inr (f, l', s') \<Longrightarrow> program s' = program s \<and> parsed l' = parsed l"
  by (auto simp: handle_arithmetic_def and_then_Inr Let_def split_def split: if_splits)

lemma handle_bitwise_keeps:
  "handle_bitwise l s = Inr (f, l', s') \<Longrightarrow> program s' = program s \<and> parsed l' = parsed l"
  by (auto simp: handle_bitwise_def and_then_Inr Let_def split_def split: if_splits)

lemma handle_compare_keeps:
  "handle_compare l s = Inr (f, l', s') \<Longrightarrow> program s' = program s \<and> parsed l' = parsed l"
  by (auto simp: handle_compare_def and_then_Inr Let_def split: if_splits)

lemma get_label_address_fields [simp]:
  "program (snd (get_label_address a lbl s)) = program s"
  "address (snd (get_label_address a lbl s)) = address s"
  "labels (snd (get_label_address a lbl s)) = labels s"
  by (simp_all add: get_label_address_def split: option.splits)

lemma handle_jump_keeps:
  "handle_jump l s = Inr (f, l', s') \<Longrightarrow> program s' = program s \<and> parsed l' = parsed l"
  by (auto simp: handle_jump_def and_then_Inr Let_def split_def split: if_splits)

lemma handle_nop_keeps:
  "handle_nop l s = Inr (f, l', s') \<Longrightarrow> program s' = program s \<and> parsed l' = parsed l"
  by (auto simp: handle_nop_def split: if_splits)

lemma handle_label_cases:
  "handle_label l s = Inr (f, l', s') \<Longrightarrow>
     (f = Fall_through \<and> l' = l \<and> s' = s) \<or> (f = Goto_finish \<and> is_label (parsed l'))"
  by (auto simp: handle_label_def and_then_Inr Let_def split: if_splits)

lemma next_block_Inr:
  "next_block r h = Inr (f, l', s') \<longleftrightarrow>
     (r = Inr (Goto_finish, l', s') \<and> f = Goto_finish) \<or>
     (\<exists>l s. r = Inr (Fall_through, l, s) \<and> h l s = Inr (f, l', s'))"
  by (auto simp: next_block_def split: sum.splits flow.splits)

lemma block_step:
  assumes "\<And>f l' s'. r = Inr (f, l', s') \<Longrightarrow>
             (f = Goto_finish \<and> is_label (parsed l')) \<or> (program s' = p \<and> parsed l' = q)"
    and "\<And>l s f l' s'. h l s = Inr (f, l', s') \<Longrightarrow>
             (f = Goto_finish \<and> is_label (parsed l')) \<or>
             (program s' = program s \<and> parsed l' = parsed l)"
    and "next_block r h = Inr (f, l', s')"
  shows "(f = Goto_finish \<and> is_label (parsed l')) \<or> (program s' = p \<and> parsed l' = q)"
proof -
  from assms(3) consider "r = Inr (Goto_finish, l', s')" "f = Goto_finish"
    | l s where "r = Inr (Fall_through, l, s)" "h l s = Inr (f, l', s')"
    by (auto simp: next_block_Inr)
  then show ?thesis
  proof cases
    case 1
    with assms(1) show ?thesis by blast
  next
    case 2
    from assms(1)[OF 2(1)] have "program s = p" "parsed l = q" by auto
    with assms(2)[OF 2(2)] show ?thesis by auto
  qed
qed

lemma blocks_keep:
  assumes "blocks l0 s = Inr (f, l', s')"
  shows "(f = Goto_finish \<and> is_label (parsed l')) \<or> (program s' = program s \<and> parsed l' = parsed l0)"
  using assms unfolding blocks_def
  apply (rule block_step[rotated 2])
   apply (rule block_step[rotated 2], assumption)
    apply (rule block_step[rotated 2], assumption)
     apply (rule block_step[rotated 2], assumption)
      apply (rule block_step[rotated 2], assumption)
       apply (rule block_step[rotated 2], assumption)
        apply (rule block_step[rotated 2], assumption)
         apply (drule handle_load_keeps, blast)
        apply (drule handle_store_keeps, blast)
       apply (drule handle_arithmetic_keeps, blast)
      apply (drule handle_bitwise_keeps, blast)
     apply (drule handle_compare_keeps, blast)
    apply (drule handle_label_cases, blast)
   apply (drule handle_jump_keeps, blast)
  apply (drule handle_nop_keeps, blast)
  done

lemma uint_not_EMPTY_OPERAND: "uint (b::u8) \<noteq> EMPTY_OPERAND"
proof -
  have "0 \<le> uint b" by simp
  then have "uint b \<noteq> - 1" by linarith
  then show ?thesis by (simp add: EMPTY_OPERAND_def)
qed

lemma parse_line_tokens:
  "tokenize line = t # ts \<Longrightarrow>
   parse_line line s =
     and_then (blocks \<lparr>token = t, iss = ts, instr = new_Instruction, parsed = new_ParsedLine\<rparr> s)
       (\<lambda>(f, l, s'). Inr (finish (address s) l s'))"
  by (simp add: parse_line_def read_token_def Let_def)

lemma parse_line_keeps_program:
  assumes "parse_line line s = Inr (pl, s1)" and "\<not> is_label pl"
  shows "program s1 = program s"
proof -
  define l0 where "l0 = read_token \<lparr>token = [], iss = tokenize line, instr = new_Instruction,
                           parsed = new_ParsedLine\<rparr>"
  from assms(1) obtain f l' s' where b: "blocks l0 s = Inr (f, l', s')"
    and fin: "finish (address s) l' s' = (pl, s1)"
    by (auto simp: parse_line_def Let_def and_then_Inr l0_def)
  from blocks_keep[OF b] show ?thesis
  proof
    assume "f = Goto_finish \<and> is_label (parsed l')"
    with fin assms(2) show ?thesis by (auto simp: finish_def)
  next
    assume "program s' = program s \<and> parsed l' = parsed l0"
    with fin show ?thesis by (auto simp: finish_def split: if_splits)
  qed
qed

lemma assemble_line_instruction:
  assumes "clean_line raw \<noteq> []" and "parse_line (clean_line raw) s = Inr (pl, s1)"
    and "\<not> is_label pl"
  shows "assemble_line u raw s =
     Inr (s1\<lparr>program := program s @
            [case opcode (instruction pl) of None \<Rightarrow> u | Some assigned \<Rightarrow> assigned,
             operand1 (instruction pl), operand2 (instruction pl)]\<rparr>)"
  using assms parse_line_keeps_program[OF assms(2,3)]
  by (simp add: assemble_line_def Let_def uint_not_EMPTY_OPERAND)

lemma assemble_lines_append:
  "assemble_lines u (xs @ ys) s =
     (case assemble_lines u xs s of Inl e \<Rightarrow> Inl e | Inr s' \<Rightarrow> assemble_lines u ys s')"
  by (induction xs arbitrary: s) (auto split: sum.splits)

lemma tokenize_nonempty: "tokenize line = t # ts \<Longrightarrow> line \<noteq> []"
  by auto

lemma bitwise_keys:
  "bitwise_operations t \<noteq> None \<Longrightarrow> t = ''AND'' \<or> t = ''OR'' \<or> t = ''XOR'' \<or> t = ''NOT''"
  by (auto simp: bitwise_operations_def split: if_splits)

subsection \<open>Jump lines\<close>

lemma placeholder_bytes [simp]:
  "high_byte (- 1) = 0xFF" "low_byte (- 1) = 0xFF"
  by (simp_all add: high_byte_def low_byte_def mask_eq_exp_minus_1)

lemma new_ParsedLine_is_label [simp]: "is_label new_ParsedLine = False"
  by (simp add: new_ParsedLine_def)

lemmas block_defs = blocks_def handle_load_def handle_store_def handle_arithmetic_def
  handle_bitwise_def handle_compare_def handle_label_def handle_jump_def handle_nop_def
  bitwise_operations_def str_back_def read_token_def at_def Let_def advance_def
  new_Instruction_def

lemma blocks_conditional_jump:
  assumes "jump_cases (erase_from_comma c) = Some opc" and "labels s L = None"
  shows "blocks \<lparr>token = ''JMP'', iss = c # L # rest, instr = new_Instruction, parsed = new_ParsedLine\<rparr> s
     = Inr (Goto_finish,
            \<lparr>token = L, iss = rest,
             instr = \<lparr>opcode = Some opc, operand1 = 0xFF, operand2 = 0xFF\<rparr>,
             parsed = new_ParsedLine\<rparr>,
            s\<lparr>address := address s + 2,
              waiting_labels := map_insert (waiting_labels s) L (address s + 2)\<rparr>)"
  using assms
  by (simp add: block_defs is_jump_case_def get_label_address_def add.commute)

lemma blocks_unconditional_jump:
  assumes "jump_cases (erase_from_comma L) = None" and "labels s (erase_from_comma L) = None"
  shows "blocks \<lparr>token = ''JMP'', iss = L # rest, instr = new_Instruction, parsed = new_ParsedLine\<rparr> s
     = Inr (Goto_finish,
            \<lparr>token = erase_from_comma L, iss = rest,
             instr = \<lparr>opcode = Some 0x13, operand1 = 0xFF, operand2 = 0xFF\<rparr>,
             parsed = new_ParsedLine\<rparr>,
            s\<lparr>address := address s + 2,
              waiting_labels := map_insert (waiting_labels s) (erase_from_comma L) (address s + 1)\<rparr>)"
  using assms
  by (simp add: block_defs is_jump_case_def get_label_address_def add.commute)

lemma assemble_conditional_jump:
  assumes "tokenize (clean_line raw) = ''JMP'' # c # L # rest"
    and "jump_cases (erase_from_comma c) = Some opc" and "labels s L = None"
  shows "assemble_line u raw s =
     Inr (s\<lparr>address := address s + 3,
            waiting_labels := map_insert (waiting_labels s) L (address s + 2),
            program := program s @ [opc, 0xFF, 0xFF]\<rparr>)"
proof -
  have ne: "clean_line raw \<noteq> []"
    using tokenize_nonempty[OF assms(1)] .
  have "\<exists>pl s1. parse_line (clean_line raw) s = Inr (pl, s1) \<and> \<not> is_label pl \<and>
          instruction pl = \<lparr>opcode = Some opc, operand1 = 0xFF, operand2 = 0xFF\<rparr> \<and>
          s1 = s\<lparr>address := address s + 3,
                 waiting_labels := map_insert (waiting_labels s) L (address s + 2)\<rparr>"
    by (simp add: parse_line_tokens[OF assms(1)] blocks_conditional_jump[OF assms(2,3)]
        finish_def advance_def add.commute)
  then obtain pl s1 where "parse_line (clean_line raw) s = Inr (pl, s1)" "\<not> is_label pl"
    "instruction pl = \<lparr>opcode = Some opc, operand1 = 0xFF, operand2 = 0xFF\<rparr>"
    "s1 = s\<lparr>address := address s + 3,
            waiting_labels := map_insert (waiting_labels s) L (address s + 2)\<rparr>"
    by blast
  with assemble_line_instruction[OF ne this(1,2)] show ?thesis by simp
qed

lemma assemble_unconditional_jump:
  assumes "tokenize (clean_line raw) = ''JMP'' # L # rest"
    and "jump_cases (erase_from_comma L) = None" and "labels s (erase_from_comma L) = None"
  shows "assemble_line u raw s =
     Inr (s\<lparr>address := address s + 3,
            waiting_labels := map_insert (waiting_labels s) (erase_from_comma L) (address s + 1),
            program := program s @ [0x13, 0xFF, 0xFF]\<rparr>)"
proof -
  have ne: "clean_line raw \<noteq> []"
    using tokenize_nonempty[OF assms(1)] .
  have "\<exists>pl s1. parse_line (clean_line raw) s = Inr (pl, s1) \<and> \<not> is_label pl \<and>
          instruction pl = \<lparr>opcode = Some 0x13, operand1 = 0xFF, operand2 = 0xFF\<rparr> \<and>
          s1 = s\<lparr>address := address s + 3,
                 waiting_labels := map_insert (waiting_labels s) (erase_from_comma L) (address s + 1)\<rparr>"
    by (simp add: parse_line_tokens[OF assms(1)] blocks_unconditional_jump[OF assms(2,3)]
        finish_def advance_def add.commute)
  then obtain pl s1 where "parse_line (clean_line raw) s = Inr (pl, s1)" "\<not> is_label pl"
    "instruction pl = \<lparr>opcode = Some 0x13, operand1 = 0xFF, operand2 = 0xFF\<rparr>"
    "s1 = s\<lparr>address := address s + 3,
            waiting_labels := map_insert (waiting_labels s) (erase_from_comma L) (address s + 1)\<rparr>"
    by blast
  with assemble_line_instruction[OF ne this(1,2)] show ?thesis by simp
qed

lemma next_block_and_then_finish [simp]:
  "next_block (and_then r (\<lambda>x. Inr (Goto_finish, l, x))) h
     = and_then r (\<lambda>x. Inr (Goto_finish, l, x))"
  by (cases r) simp_all

subsection \<open>Label lines\<close>

lemma blocks_label:
  assumes "t \<noteq> []" and "last t = CHR '':''"
    and "take 2 t \<noteq> ''LD''" and "take 2 t \<noteq> ''ST''"
    and "take 3 t \<noteq> ''ADD''" and "take 3 t \<noteq> ''SUB''"
  shows "blocks \<lparr>token = t, iss = ts, instr = i, parsed = new_ParsedLine\<rparr> s
     = and_then
         (check_waiting_labels (butlast t) (address s + (if address s = 0 then 0 else 1))
            (s\<lparr>address := address s + (if address s = 0 then 0 else 1),
               labels := map_insert (labels s) (butlast t)
                           (address s + (if address s = 0 then 0 else 1))\<rparr>))
         (\<lambda>s3. Inr (Goto_finish,
            \<lparr>token = butlast t, iss = ts, instr = i,
             parsed = new_ParsedLine\<lparr>label := butlast t, is_label := True\<rparr>\<rparr>, s3))"
proof -
  have "bitwise_operations t = None"
  proof (rule ccontr)
    assume "bitwise_operations t \<noteq> None"
    from bitwise_keys[OF this] show False using assms(2) by auto
  qed
  moreover have "t \<noteq> ''CP''"
    using assms(2) by auto
  ultimately show ?thesis
    using assms
    by (simp add: blocks_def handle_load_def handle_store_def handle_arithmetic_def
      handle_bitwise_def handle_compare_def handle_label_def str_back_def Let_def advance_def)
qed

lemma assemble_label_line:
  assumes "tokenize (clean_line raw) = t # ts"
    and "t \<noteq> []" and "last t = CHR '':''"
    and "take 2 t \<noteq> ''LD''" and "take 2 t \<noteq> ''ST''"
    and "take 3 t \<noteq> ''ADD''" and "take 3 t \<noteq> ''SUB''"
  shows "assemble_line u raw s =
     check_waiting_labels (butlast t) (address s + (if address s = 0 then 0 else 1))
            (s\<lparr>address := address s + (if address s = 0 then 0 else 1),
               labels := map_insert (labels s) (butlast t)
                           (address s + (if address s = 0 then 0 else 1))\<rparr>)"
  using tokenize_nonempty[OF assms(1)]
  by (simp add: assemble_line_def parse_line_tokens[OF assms(1)]
      blocks_label[OF assms(2-7)] finish_def and_then_def split: sum.splits)

subsection \<open>Lines that advance the counter by three\<close>

lemma handle_load_effect:
  "take 2 (token l) = ''LD'' \<Longrightarrow> handle_load l s = Inr (f, l', s') \<Longrightarrow>
     f = Goto_finish \<and> address s' = address s + 2 \<and> opcode (instr l') \<noteq> None"
  by (auto simp: handle_load_def and_then_Inr Let_def split_def split: if_splits)

lemma handle_store_effect:
  "take 2 (token l) = ''ST'' \<Longrightarrow> handle_store l s = Inr (f, l', s') \<Longrightarrow>
     f = Goto_finish \<and> address s' = address s + 2 \<and> opcode (instr l') \<noteq> None"
  by (auto simp: handle_store_def and_then_Inr Let_def split_def split: if_splits)

lemma handle_compare_effect:
  "token l = ''CP'' \<Longrightarrow> handle_compare l s = Inr (f, l', s') \<Longrightarrow>
     f = Goto_finish \<and> address s' = address s + 2 \<and> opcode (instr l') \<noteq> None"
  by (auto simp: handle_compare_def and_then_Inr Let_def split_def split: if_splits)

lemma handle_jump_effect:
  "take 3 (token l) = ''JMP'' \<Longrightarrow> handle_jump l s = Inr (f, l', s') \<Longrightarrow>
     f = Goto_finish \<and> address s' = address s + 2 \<and> opcode (instr l') \<noteq> None"
  by (auto simp: handle_jump_def and_then_Inr Let_def split_def split: if_splits)

lemma handle_arithmetic_effect:
  "take 3 (token l) = ''ADD'' \<or> take 3 (token l) = ''SUB'' \<Longrightarrow>
   fst (is_register (token (read_token l))) \<Longrightarrow>
   handle_arithmetic l s = Inr (f, l', s') \<Longrightarrow>
     address s' = address s + 2 \<and> opcode (instr l') \<noteq> None \<and>
     (f = Goto_finish \<or> token l' \<in> set register_names)"
  by (auto simp: handle_arithmetic_def and_then_Inr Let_def split_def is_register_def
      split: if_splits)

lemma is_register_names:
  "fst (is_register t) \<Longrightarrow> snd (is_register t) \<in> set register_names"
  by (simp add: is_register_def Let_def)

lemma is_register_of_name:
  "t \<in> set register_names \<Longrightarrow> is_register t = (True, t)"
  by (auto simp: is_register_def register_names_def toupper_def erase_from_comma_def)

lemma handle_bitwise_effect:
  assumes "token l = ''AND'' \<or> token l = ''OR'' \<or> token l = ''XOR''"
    and "fst (is_register (token (read_token l)))"
    and "fst (is_register (case iss (read_token l) of
                             [] \<Rightarrow> snd (is_register (token (read_token l))) | t2 # rest \<Rightarrow> t2))"
    and "handle_bitwise l s = Inr (f, l', s')"
  shows "f = Goto_finish \<and> address s' = address s + 2 \<and> opcode (instr l') \<noteq> None"
proof -
  define l1 where "l1 = read_token l"
  define tok where "tok = snd (is_register (token l1))"
  have r1: "is_register (token l1) = (True, tok)"
    using assms(2) by (simp add: l1_def tok_def prod_eq_iff)
  have tok2: "token (read_token (l1\<lparr>token := tok, instr := i\<rparr>))
                = (case iss l1 of [] \<Rightarrow> tok | t2 # rest \<Rightarrow> t2)" for i
    by (simp add: read_token_def split: list.splits)
  have r2: "fst (is_register (token (read_token (l1\<lparr>token := tok, instr := i\<rparr>))))" for i
  proof -
    have "(case iss l1 of [] \<Rightarrow> tok | t2 # rest \<Rightarrow> t2)
            = (case iss (read_token l) of
                 [] \<Rightarrow> snd (is_register (token (read_token l))) | t2 # rest \<Rightarrow> t2)"
      by (simp add: tok_def l1_def cong: list.case_cong)
    with assms(3) show ?thesis by (simp only: tok2)
  qed
  have bw: "bitwise_operations (token l) \<noteq> None" "take 3 (token l) \<noteq> ''NOT''"
    using assms(1) by (auto simp: bitwise_operations_def)
  show ?thesis
    using assms(4) bw r1 r2
    by (auto simp: handle_bitwise_def and_then_Inr Let_def split_def l1_def[symmetric]
        split: if_splits)
qed

lemma register_name_falls_through:
  assumes "token l \<in> set register_names"
  shows "handle_bitwise l s = Inr (Fall_through, l, s)"
    and "handle_compare l s = Inr (Fall_through, l, s)"
    and "handle_label l s = Inr (Fall_through, l, s)"
    and "handle_jump l s = Inr (Fall_through, l, s)"
    and "handle_nop l s = Inr (Fall_through, l, s)"
  using assms
  by (auto simp: handle_bitwise_def handle_compare_def handle_label_def handle_jump_def
      handle_nop_def register_names_def bitwise_operations_def str_back_def)

lemma take2_of_take3: "take 3 t = [a, b, c] \<Longrightarrow> take 2 t = [a, b]"
proof -
  assume "take 3 t = [a, b, c]"
  then have "take 2 (take 3 t) = [a, b]" by simp
  then show ?thesis by (simp add: min_def)
qed

lemma next_block_stops:
  "(\<And>l0 s0. r \<noteq> Inr (Fall_through, l0, s0)) \<Longrightarrow> next_block r h = r"
  by (auto simp: next_block_def split: sum.splits flow.splits)

lemma blocks_three_step_handler:
  assumes cls: "take 2 (token l) = ''LD'' \<or> take 2 (token l) = ''ST'' \<or> token l = ''CP''
      \<or> (take 3 (token l) = ''JMP'' \<and> last (token l) \<noteq> CHR '':'')
      \<or> ((take 3 (token l) = ''ADD'' \<or> take 3 (token l) = ''SUB'')
          \<and> fst (is_register (token (read_token l))))
      \<or> ((token l = ''AND'' \<or> token l = ''OR'' \<or> token l = ''XOR'')
          \<and> fst (is_register (token (read_token l)))
          \<and> fst (is_register (case iss (read_token l) of
                                 [] \<Rightarrow> snd (is_register (token (read_token l)))
                               | t2 # rest \<Rightarrow> t2)))"
  shows "(take 2 (token l) = ''LD'' \<and> blocks l s = handle_load l s)
       \<or> (take 2 (token l) = ''ST'' \<and> blocks l s = handle_store l s)
       \<or> (token l = ''CP'' \<and> blocks l s = handle_compare l s)
       \<or> (take 3 (token l) = ''JMP'' \<and> blocks l s = handle_jump l s)
       \<or> ((take 3 (token l) = ''ADD'' \<or> take 3 (token l) = ''SUB'')
           \<and> fst (is_register (token (read_token l)))
           \<and> blocks l s = handle_arithmetic l s)
       \<or> ((token l = ''AND'' \<or> token l = ''OR'' \<or> token l = ''XOR'')
           \<and> fst (is_register (token (read_token l)))
           \<and> fst (is_register (case iss (read_token l) of
                                  [] \<Rightarrow> snd (is_register (token (read_token l)))
                                | t2 # rest \<Rightarrow> t2))
           \<and> blocks l s = handle_bitwise l s)"
proof -
  consider (LD) "take 2 (token l) = ''LD''"
    | (ST) "take 2 (token l) = ''ST''"
    | (CP) "token l = ''CP''"
    | (JMP) "take 3 (token l) = ''JMP''" "last (token l) \<noteq> CHR '':''"
    | (ARITH) "take 3 (token l) = ''ADD'' \<or> take 3 (token l) = ''SUB''"
        "fst (is_register (token (read_token l)))"
    | (BITW) "token l = ''AND'' \<or> token l = ''OR'' \<or> token l = ''XOR''"
        "fst (is_register (token (read_token l)))"
        "fst (is_register (case iss (read_token l) of
                             [] \<Rightarrow> snd (is_register (token (read_token l)))
                           | t2 # rest \<Rightarrow> t2))"
    using cls by blast
  then show ?thesis
  proof cases
    case LD
    have "\<And>l0 s0. handle_load l s \<noteq> Inr (Fall_through, l0, s0)"
      using handle_load_effect[OF LD] by fastforce
    then have "blocks l s = handle_load l s"
      by (simp add: blocks_def next_block_stops)
    with LD show ?thesis by simp
  next
    case ST
    have pre: "handle_load l s = Inr (Fall_through, l, s)"
      using ST by (simp add: handle_load_def)
    have "\<And>l0 s0. handle_store l s \<noteq> Inr (Fall_through, l0, s0)"
      using handle_store_effect[OF ST] by fastforce
    then have "blocks l s = handle_store l s"
      by (simp add: blocks_def pre next_block_stops)
    with ST show ?thesis by simp
  next
    case CP
    have pre: "handle_load l s = Inr (Fall_through, l, s)"
      "handle_store l s = Inr (Fall_through, l, s)"
      "handle_arithmetic l s = Inr (Fall_through, l, s)"
      "handle_bitwise l s = Inr (Fall_through, l, s)"
      using CP by (simp_all add: handle_load_def handle_store_def handle_arithmetic_def
          handle_bitwise_def bitwise_operations_def)
    have "\<And>l0 s0. handle_compare l s \<noteq> Inr (Fall_through, l0, s0)"
      using handle_compare_effect[OF CP] by fastforce
    then have "blocks l s = handle_compare l s"
      by (simp add: blocks_def pre next_block_stops)
    with CP show ?thesis by simp
  next
    case JMP
    have t2: "take 2 (token l) = ''JM''"
      using take2_of_take3[OF JMP(1)] .
    have ne: "token l \<noteq> []"
      using JMP(1) by auto
    have bw: "bitwise_operations (token l) = None"
    proof (rule ccontr)
      assume "bitwise_operations (token l) \<noteq> None"
      from bitwise_keys[OF this] show False using JMP(1) by auto
    qed
    have cp: "token l \<noteq> ''CP''"
      using JMP(1) by auto
    have pre: "handle_load l s = Inr (Fall_through, l, s)"
      "handle_store l s = Inr (Fall_through, l, s)"
      "handle_arithmetic l s = Inr (Fall_through, l, s)"
      "handle_bitwise l s = Inr (Fall_through, l, s)"
      "handle_compare l s = Inr (Fall_through, l, s)"
      "handle_label l s = Inr (Fall_through, l, s)"
      using JMP t2 ne bw cp by (simp_all add: handle_load_def handle_store_def
          handle_arithmetic_def handle_bitwise_def handle_compare_def handle_label_def
          str_back_def)
    have "\<And>l0 s0. handle_jump l s \<noteq> Inr (Fall_through, l0, s0)"
      using handle_jump_effect[OF JMP(1)] by fastforce
    then have "blocks l s = handle_jump l s"
      by (simp add: blocks_def pre next_block_stops)
    with JMP show ?thesis by simp
  next
    case ARITH
    have t2: "take 2 (token l) = ''AD'' \<or> take 2 (token l) = ''SU''"
      using ARITH(1) take2_of_take3[of "token l"] by auto
    have pre: "handle_load l s = Inr (Fall_through, l, s)"
      "handle_store l s = Inr (Fall_through, l, s)"
      using t2 by (auto simp: handle_load_def handle_store_def)
    have "blocks l s = handle_arithmetic l s"
    proof (cases "handle_arithmetic l s")
      case (Inl e)
      then show ?thesis by (simp add: blocks_def pre)
    next
      case (Inr x)
      obtain f0 l0 s0 where x: "x = (f0, l0, s0)" by (cases x)
      note r = Inr[unfolded x]
      note eff = handle_arithmetic_effect[OF ARITH r]
      have "blocks l s = Inr (f0, l0, s0)"
      proof (cases f0)
        case Goto_finish
        then show ?thesis by (simp add: blocks_def pre r)
      next
        case Fall_through
        with eff have "token l0 \<in> set register_names" by simp
        from register_name_falls_through[OF this] show ?thesis
          by (simp add: blocks_def pre r Fall_through)
      qed
      with r show ?thesis by simp
    qed
    with ARITH show ?thesis by simp
  next
    case BITW
    have pre: "handle_load l s = Inr (Fall_through, l, s)"
      "handle_store l s = Inr (Fall_through, l, s)"
      "handle_arithmetic l s = Inr (Fall_through, l, s)"
      using BITW(1) by (auto simp: handle_load_def handle_store_def handle_arithmetic_def)
    have "\<And>l0 s0. handle_bitwise l s \<noteq> Inr (Fall_through, l0, s0)"
      using handle_bitwise_effect[OF BITW] by fastforce
    then have "blocks l s = handle_bitwise l s"
      by (simp add: blocks_def pre next_block_stops)
    with BITW show ?thesis by simp
  qed
qed

lemma map_insert_keeps_entry:
  "m k = Some a \<Longrightarrow> map_insert m k' v k = Some a"
  by (auto simp: map_insert_def split: option.splits)

lemma handle_load_keeps_maps:
  "handle_load l s = Inr (f, l', s') \<Longrightarrow>
     labels s' = labels s \<and> waiting_labels s' = waiting_labels s"
  by (auto simp: handle_load_def and_then_Inr Let_def split_def split: if_splits)

lemma handle_store_keeps_maps:
  "handle_store l s = Inr (f, l', s') \<Longrightarrow>
     labels s' = labels s \<and> waiting_labels s' = waiting_labels s"
  by (auto simp: handle_store_def and_then_Inr Let_def split: if_splits)

lemma handle_arithmetic_keeps_maps:
  "handle_arithmetic l s = Inr (f, l', s') \<Longrightarrow>
     labels s' = labels s \<and> waiting_labels s' = waiting_labels s"
  by (auto simp: handle_arithmetic_def and_then_Inr Let_def split_def split: if_splits)

lemma handle_bitwise_keeps_maps:
  "handle_bitwise l s = Inr (f, l', s') \<Longrightarrow>
     labels s' = labels s \<and> waiting_labels s' = waiting_labels s"
  by (auto simp: handle_bitwise_def and_then_Inr Let_def split_def split: if_splits)

lemma handle_compare_keeps_maps:
  "handle_compare l s = Inr (f, l', s') \<Longrightarrow>
     labels s' = labels s \<and> waiting_labels s' = waiting_labels s"
  by (auto simp: handle_compare_def and_then_Inr Let_def split: if_splits)

lemma handle_jump_keeps_maps:
  "handle_jump l s = Inr (f, l', s') \<Longrightarrow>
     labels s' = labels s \<and> (waiting_labels s L = Some a \<longrightarrow> waiting_labels s' L = Some a)"
  by (auto simp: handle_jump_def and_then_Inr Let_def split_def get_label_address_def
      map_insert_keeps_entry split: if_splits option.splits)

lemma blocks_three_step:
  assumes b: "blocks l s = Inr (f, l', s')"
    and cls: "take 2 (token l) = ''LD'' \<or> take 2 (token l) = ''ST'' \<or> token l = ''CP''
      \<or> (take 3 (token l) = ''JMP'' \<and> last (token l) \<noteq> CHR '':'')
      \<or> ((take 3 (token l) = ''ADD'' \<or> take 3 (token l) = ''SUB'')
          \<and> fst (is_register (token (read_token l))))
      \<or> ((token l = ''AND'' \<or> token l = ''OR'' \<or> token l = ''XOR'')
          \<and> fst (is_register (token (read_token l)))
          \<and> fst (is_register (case iss (read_token l) of
                                 [] \<Rightarrow> snd (is_register (token (read_token l)))
                               | t2 # rest \<Rightarrow> t2)))"
  shows "address s' = address s + 2 \<and> opcode (instr l') \<noteq> None \<and> parsed l' = parsed l
       \<and> labels s' = labels s
       \<and> (waiting_labels s L = Some a \<longrightarrow> waiting_labels s' L = Some a)"
proof -
  from blocks_three_step_handler[OF cls, of s] b
  consider (LD) "take 2 (token l) = ''LD''" "handle_load l s = Inr (f, l', s')"
    | (ST) "take 2 (token l) = ''ST''" "handle_store l s = Inr (f, l', s')"
    | (CP) "token l = ''CP''" "handle_compare l s = Inr (f, l', s')"
    | (JMP) "take 3 (token l) = ''JMP''" "handle_jump l s = Inr (f, l', s')"
    | (ARITH) "take 3 (token l) = ''ADD'' \<or> take 3 (token l) = ''SUB''"
        "fst (is_register (token (read_token l)))" "handle_arithmetic l s = Inr (f, l', s')"
    | (BITW) "token l = ''AND'' \<or> token l = ''OR'' \<or> token l = ''XOR''"
        "fst (is_register (token (read_token l)))"
        "fst (is_register (case iss (read_token l) of
                             [] \<Rightarrow> snd (is_register (token (read_token l)))
                           | t2 # rest \<Rightarrow> t2))"
        "handle_bitwise l s = Inr (f, l', s')"
    by auto
  then show ?thesis
  proof cases
    case LD
    from handle_load_effect[OF LD] handle_load_keeps[OF LD(2)] handle_load_keeps_maps[OF LD(2)]
    show ?thesis by simp
  next
    case ST
    from handle_store_effect[OF ST] handle_store_keeps[OF ST(2)] handle_store_keeps_maps[OF ST(2)]
    show ?thesis by simp
  next
    case CP
    from handle_compare_effect[OF CP] handle_compare_keeps[OF CP(2)]
      handle_compare_keeps_maps[OF CP(2)]
    show ?thesis by simp
  next
    case JMP
    from handle_jump_effect[OF JMP] handle_jump_keeps[OF JMP(2)]
      handle_jump_keeps_maps[OF JMP(2), of L a]
    show ?thesis by simp
  next
    case ARITH
    from handle_arithmetic_effect[OF ARITH] handle_arithmetic_keeps[OF ARITH(3)]
      handle_arithmetic_keeps_maps[OF ARITH(3)]
    show ?thesis by simp
  next
    case BITW
    from handle_bitwise_effect[OF BITW] handle_bitwise_keeps[OF BITW(4)]
      handle_bitwise_keeps_maps[OF BITW(4)]
    show ?thesis by simp
  qed
qed

lemma assemble_three_step:
  assumes "three_step_line raw" and "assemble_line u raw s = Inr s'"
  shows "address s' = address s + 3 \<and> (\<exists>b1 b2 b3. program s' = program s @ [b1, b2, b3])
       \<and> labels s' = labels s
       \<and> (waiting_labels s L = Some a \<longrightarrow> waiting_labels s' L = Some a)"
proof -
  from assms(1) obtain t ts where tok: "tokenize (clean_line raw) = t # ts"
    and cls: "take 2 t = ''LD'' \<or> take 2 t = ''ST'' \<or> t = ''CP''
      \<or> (take 3 t = ''JMP'' \<and> last t \<noteq> CHR '':'')
      \<or> ((take 3 t = ''ADD'' \<or> take 3 t = ''SUB'')
          \<and> (case ts of [] \<Rightarrow> False | r # rest \<Rightarrow> fst (is_register r)))
      \<or> ((t = ''AND'' \<or> t = ''OR'' \<or> t = ''XOR'')
          \<and> (case ts of
                [] \<Rightarrow> False
              | r # rest \<Rightarrow>
                  fst (is_register r)
                  \<and> (case rest of [] \<Rightarrow> True | r2 # rest2 \<Rightarrow> fst (is_register r2))))"
    by (simp add: three_step_line_def split: list.splits)
  define l0 where "l0 = \<lparr>token = t, iss = ts, instr = new_Instruction, parsed = new_ParsedLine\<rparr>"
  have ne: "clean_line raw \<noteq> []"
    using tokenize_nonempty[OF tok] .
  from assms(2) ne obtain pl s1 where p: "parse_line (clean_line raw) s = Inr (pl, s1)"
    by (auto simp: assemble_line_def and_then_Inr)
  then obtain f l' s0 where b: "blocks l0 s = Inr (f, l', s0)"
    and fin: "finish (address s) l' s0 = (pl, s1)"
    by (auto simp: parse_line_tokens[OF tok] and_then_Inr l0_def)
  have "take 2 (token l0) = ''LD'' \<or> take 2 (token l0) = ''ST'' \<or> token l0 = ''CP''
      \<or> (take 3 (token l0) = ''JMP'' \<and> last (token l0) \<noteq> CHR '':'')
      \<or> ((take 3 (token l0) = ''ADD'' \<or> take 3 (token l0) = ''SUB'')
          \<and> fst (is_register (token (read_token l0))))
      \<or> ((token l0 = ''AND'' \<or> token l0 = ''OR'' \<or> token l0 = ''XOR'')
          \<and> fst (is_register (token (read_token l0)))
          \<and> fst (is_register (case iss (read_token l0) of
                                 [] \<Rightarrow> snd (is_register (token (read_token l0)))
                               | t2 # rest \<Rightarrow> t2)))"
    using cls is_register_names is_register_of_name
    by (auto simp: l0_def read_token_def split: list.splits)
  from blocks_three_step[OF b this, of L a]
  have eff: "address s0 = address s + 2" "opcode (instr l') \<noteq> None" "parsed l' = parsed l0"
    "labels s0 = labels s" "waiting_labels s L = Some a \<longrightarrow> waiting_labels s0 L = Some a"
    by simp_all
  then have nl: "\<not> is_label pl" and s1: "s1 = advance 1 s0" and i: "instruction pl = instr l'"
    using fin by (auto simp: finish_def l0_def)
  from eff(2) i obtain opc where opc: "opcode (instruction pl) = Some opc" by auto
  from assemble_line_instruction[OF ne p nl] assms(2) opc
  have "s' = s1\<lparr>program := program s @ [opc, operand1 (instruction pl), operand2 (instruction pl)]\<rparr>"
    by simp
  with s1 eff(1,4,5) show ?thesis by (simp add: advance_def)
qed

lemma assemble_lines_three_step:
  assumes "\<forall>raw \<in> set lines. clean_line raw = [] \<or> three_step_line raw"
    and "assemble_lines u lines s = Inr s'"
  shows "address s' = address s + of_nat (3 * length (filter (\<lambda>raw. clean_line raw \<noteq> []) lines))
       \<and> length (program s') =
           length (program s) + 3 * length (filter (\<lambda>raw. clean_line raw \<noteq> []) lines)"
  using assms
proof (induction lines arbitrary: s)
  case Nil
  then show ?case by simp
next
  case (Cons raw rest)
  from Cons.prems(2) obtain s1 where one: "assemble_line u raw s = Inr s1"
    and more: "assemble_lines u rest s1 = Inr s'"
    by (auto split: sum.splits)
  from Cons.prems(1) have rest: "\<forall>raw \<in> set rest. clean_line raw = [] \<or> three_step_line raw"
    by simp
  note IH = Cons.IH[OF rest more]
  show ?case
  proof (cases "clean_line raw = []")
    case True
    with one have "s1 = s" by (simp add: assemble_line_def)
    with IH True show ?thesis by simp
  next
    case False
    with Cons.prems(1) have cls: "three_step_line raw" by simp
    from assemble_three_step[OF cls one, THEN conjunct1]
      assemble_three_step[OF cls one, THEN conjunct2, THEN conjunct1]
    have "address s1 = address s + 3" "length (program s1) = length (program s) + 3"
      by auto
    with IH False show ?thesis by simp
  qed
qed

lemma assemble_lines_three_step_maps:
  assumes "\<forall>raw \<in> set lines. clean_line raw = [] \<or> three_step_line raw"
    and "assemble_lines u lines s = Inr s'"
  shows "labels s' = labels s
       \<and> (waiting_labels s L = Some a \<longrightarrow> waiting_labels s' L = Some a)
       \<and> (\<exists>bytes. program s' = program s @ bytes)"
  using assms
proof (induction lines arbitrary: s)
  case Nil
  then show ?case by simp
next
  case (Cons raw rest)
  from Cons.prems(2) obtain s1 where one: "assemble_line u raw s = Inr s1"
    and more: "assemble_lines u rest s1 = Inr s'"
    by (auto split: sum.splits)
  from Cons.prems(1) have rest: "\<forall>raw \<in> set rest. clean_line raw = [] \<or> three_step_line raw"
    by simp
  note IH = Cons.IH[OF rest more]
  show ?case
  proof (cases "clean_line raw = []")
    case True
    with one have "s1 = s" by (simp add: assemble_line_def)
    with IH show ?thesis by simp
  next
    case False
    with Cons.prems(1) have cls: "three_step_line raw" by simp
    from assemble_three_step[OF cls one, of L a] IH show ?thesis
      by auto
  qed
qed

subsection \<open>Three bytes for each instruction line\<close>

text \<open>
  The assembler side of C10. A line that \<^verbatim>\<open>parse_line\<close> returns as an instruction makes
  \<^verbatim>\<open>main\<close> append exactly three bytes to the program as it was before the line: the
  opcode and both operand fields, because no byte is equal to \<^verbatim>\<open>EMPTY_OPERAND\<close> once
  promoted to \<^verbatim>\<open>int\<close>. This holds for a line that no block recognises too: its first
  byte is then the unassigned opcode. An operand field that no block has assigned holds
  0xFF: the lemmas below show it for the lines with fewer than two operands, which are
  NOP, CP, a load of a value, a load of a register, and NOT.
\<close>

lemma instruction_line_three_bytes:
  assumes "clean_line raw \<noteq> []" and "parse_line (clean_line raw) s = Inr (pl, s1)"
    and "\<not> is_label pl"
  shows "\<exists>s' b. assemble_line u raw s = Inr s' \<and>
           program s' = program s @ [b, operand1 (instruction pl), operand2 (instruction pl)]"
  using assemble_line_instruction[OF assms, of u] by simp

lemma empty_operand_byte: "(word_of_int EMPTY_OPERAND :: u8) = 0xFF"
  by (simp add: EMPTY_OPERAND_def)

lemma assemble_nop:
  assumes "tokenize (clean_line raw) = [''NOP'']"
  shows "assemble_line u raw s =
     Inr (s\<lparr>address := address s + 1, program := program s @ [0x00, 0xFF, 0xFF]\<rparr>)"
proof -
  have ne: "clean_line raw \<noteq> []"
    using tokenize_nonempty[OF assms] .
  have p: "parse_line (clean_line raw) s =
     Inr (new_ParsedLine\<lparr>pl_address := address s, pl_size := 0,
            instruction := \<lparr>opcode = Some 0x00, operand1 = 0xFF, operand2 = 0xFF\<rparr>\<rparr>,
          s\<lparr>address := address s + 1\<rparr>)"
    by (simp add: parse_line_tokens[OF assms] block_defs finish_def EMPTY_OPERAND_def)
  from assemble_line_instruction[OF ne p, of u] show ?thesis
    by simp
qed

lemma assemble_compare:
  assumes "tokenize (clean_line raw) = [''CP'', v]" and "get_value v = Inr x"
  shows "assemble_line u raw s =
     Inr (s\<lparr>address := address s + 3, program := program s @ [0x18, x, 0xFF]\<rparr>)"
proof -
  have ne: "clean_line raw \<noteq> []"
    using tokenize_nonempty[OF assms(1)] .
  have p: "parse_line (clean_line raw) s =
     Inr (new_ParsedLine\<lparr>pl_address := address s + 2, pl_size := 2,
            instruction := \<lparr>opcode = Some 0x18, operand1 = x, operand2 = 0xFF\<rparr>\<rparr>,
          s\<lparr>address := address s + 3\<rparr>)"
  proof -
    have "(- 1 :: u8) = 0xFF" by simp
    then show ?thesis
      by (simp add: parse_line_tokens[OF assms(1)] block_defs finish_def assms(2) add.commute
          EMPTY_OPERAND_def)
  qed
  from assemble_line_instruction[OF ne p, of u] show ?thesis
    by simp
qed

lemma assemble_load_value:
  assumes "tokenize (clean_line raw) = [t, v]" and "take 2 t = ''LD''"
    and "ld_values (last t) = Some opc" and "is_register v = (False, v')"
    and "is_address v' = Inr False" and "get_value v' = Inr x"
  shows "assemble_line u raw s =
     Inr (s\<lparr>address := address s + 3, program := program s @ [opc, x, 0xFF]\<rparr>)"
proof -
  have ne: "clean_line raw \<noteq> []"
    using tokenize_nonempty[OF assms(1)] .
  have t: "t \<noteq> []"
    using assms(2) by auto
  have p: "parse_line (clean_line raw) s =
     Inr (new_ParsedLine\<lparr>pl_address := address s + 2, pl_size := 2,
            instruction := \<lparr>opcode = Some opc, operand1 = x, operand2 = 0xFF\<rparr>\<rparr>,
          s\<lparr>address := address s + 3\<rparr>)"
  proof -
    have "(- 1 :: u8) = 0xFF" by simp
    then show ?thesis
      using t
      by (simp add: parse_line_tokens[OF assms(1)] block_defs finish_def assms(2-6) add.commute
          EMPTY_OPERAND_def)
  qed
  from assemble_line_instruction[OF ne p, of u] show ?thesis
    by simp
qed

lemma assemble_load_register:
  assumes "tokenize (clean_line raw) = [t, r]" and "take 2 t = ''LD''"
    and "ld_registers (last t) = Some opc" and "is_register r = (True, r')"
    and "register_codes (last r') = Some code"
  shows "assemble_line u raw s =
     Inr (s\<lparr>address := address s + 3, program := program s @ [opc, code, 0xFF]\<rparr>)"
proof -
  have ne: "clean_line raw \<noteq> []"
    using tokenize_nonempty[OF assms(1)] .
  have t: "t \<noteq> []"
    using assms(2) by auto
  have r: "r' \<noteq> []"
    using assms(4) by (auto simp: is_register_def register_names_def Let_def)
  have p: "parse_line (clean_line raw) s =
     Inr (new_ParsedLine\<lparr>pl_address := address s + 2, pl_size := 2,
            instruction := \<lparr>opcode = Some opc, operand1 = code, operand2 = 0xFF\<rparr>\<rparr>,
          s\<lparr>address := address s + 3\<rparr>)"
  proof -
    have "(- 1 :: u8) = 0xFF" by simp
    then show ?thesis
      using t r
      by (simp add: parse_line_tokens[OF assms(1)] block_defs finish_def assms(2-5) add.commute
          EMPTY_OPERAND_def)
  qed
  from assemble_line_instruction[OF ne p, of u] show ?thesis
    by simp
qed

lemma assemble_not:
  assumes "tokenize (clean_line raw) = [''NOT'', r]" and "is_register r = (True, r')"
    and "register_codes (last r') = Some code"
  shows "assemble_line u raw s =
     Inr (s\<lparr>address := address s + 2, program := program s @ [0x12, code, 0xFF]\<rparr>)"
proof -
  have ne: "clean_line raw \<noteq> []"
    using tokenize_nonempty[OF assms(1)] .
  have r: "r' \<noteq> []"
    using assms(2) by (auto simp: is_register_def register_names_def Let_def)
  have p: "parse_line (clean_line raw) s =
     Inr (new_ParsedLine\<lparr>pl_address := address s + 1, pl_size := 1,
            instruction := \<lparr>opcode = Some 0x12, operand1 = code, operand2 = 0xFF\<rparr>\<rparr>,
          s\<lparr>address := address s + 2\<rparr>)"
  proof -
    have "(- 1 :: u8) = 0xFF" by simp
    then show ?thesis
      using r
      by (simp add: parse_line_tokens[OF assms(1)] block_defs finish_def assms(2-3) add.commute
          EMPTY_OPERAND_def)
  qed
  from assemble_line_instruction[OF ne p, of u] show ?thesis
    by simp
qed

text \<open>
  C10, evaluated at the ROM bytes FF 00 on the initial machine. The case for the opcode
  0xFF stands under the comment "Just skip" and changes nothing, as the claim says; but it
  ends in \<^verbatim>\<open>break\<close>, so that \<^verbatim>\<open>execute\<close> ends without a result, and the run, which
  tests that result, does not go on to the 00 in a defined way.
\<close>

theorem skip_opcode_ends_without_result:
  "step (VM_init\<lparr>rom := [0xFF, 0x00] @ replicate 4094 0\<rparr>)
     = Inr (None, VM_init\<lparr>rom := [0xFF, 0x00] @ replicate 4094 0, PC := 1\<rparr>)
   \<and> vm_main [0xFF, 0x00] = Some (Inl Missing_return)"
  by (simp add: vm_main_def load_program_def run.simps step_def execute_def fetch_def
      VM_init_def)

subsection \<open>The address counter\<close>

text \<open>
  C8, as the code has it. The first part is about an input that the assembler accepts and
  in which every line is of one of two kinds: a line that is empty once \<^verbatim>\<open>clean_line\<close>
  has cut it at its first semicolon (an empty line, or a comment that starts in the first
  column; a line of white space is not of this kind), or a line of \<open>three_step_line\<close>: its
  first token begins with LD or ST, or is CP, or begins with JMP and does not end in a
  colon, or begins with ADD or SUB and the next token is a register, or is AND, OR or XOR
  and the tokens after it are registers. For such an input the counter printed as
  "Program size" is the length of the output, as a 16-bit number, and the output has
  three bytes for each line of the second kind; and after every line of the input, that
  is for the first \<open>k\<close> lines whatever \<open>k\<close> is, the counter is the number of bytes
  emitted so far. The second part is about a line that is the one token
  \<open>L:\<close>, where \<open>L:\<close> does not begin with LD, ST, ADD or SUB, and that the assembler
  accepts: it emits no byte and adds one to the counter unless the counter is 0, so from
  such a line at a counter other than 0 on, the counter is ahead of the bytes emitted.
  Nothing is said here about NOP lines, NOT lines, or lines of another form.
\<close>

theorem counter_tracks_emitted_bytes:
  "((\<forall>raw \<in> set lines. clean_line raw = [] \<or> three_step_line raw)
      \<and> assembler_main u lines = Inr (bytes, counter) \<longrightarrow>
      counter = of_nat (length bytes) \<and> unat counter = length bytes mod 65536
      \<and> length bytes = 3 * length (filter (\<lambda>raw. clean_line raw \<noteq> []) lines)
      \<and> (\<forall>k \<le> length lines. \<exists>sk. assemble_lines u (take k lines) asm_init = Inr sk
             \<and> address sk = of_nat (length (program sk))))
   \<and> (tokenize (clean_line raw) = [L @ '':''] \<and> take 2 (L @ '':'') \<noteq> ''LD''
      \<and> take 2 (L @ '':'') \<noteq> ''ST'' \<and> take 3 (L @ '':'') \<noteq> ''ADD''
      \<and> take 3 (L @ '':'') \<noteq> ''SUB'' \<and> assemble_line u raw s = Inr s1 \<longrightarrow>
      length (program s1) = length (program s)
      \<and> address s1 = address s + (if address s = 0 then 0 else 1))"
proof (intro conjI impI)
  assume h: "(\<forall>raw \<in> set lines. clean_line raw = [] \<or> three_step_line raw)
      \<and> assembler_main u lines = Inr (bytes, counter)"
  then obtain s' where s': "assemble_lines u lines asm_init = Inr s'"
    and r: "bytes = program s'" "counter = address s'"
    by (auto simp: assembler_main_def split: sum.splits)
  from h assemble_lines_three_step[OF _ s']
  have a: "address s' = of_nat (3 * length (filter (\<lambda>raw. clean_line raw \<noteq> []) lines))"
    and p: "length (program s') = 3 * length (filter (\<lambda>raw. clean_line raw \<noteq> []) lines)"
    by (simp_all add: asm_init_def)
  from a p r show c: "counter = of_nat (length bytes)" by simp
  show "unat counter = length bytes mod 65536"
    unfolding c by (simp add: unat_of_nat)
  from p r show "length bytes = 3 * length (filter (\<lambda>raw. clean_line raw \<noteq> []) lines)"
    by simp
  show "\<forall>k \<le> length lines. \<exists>sk. assemble_lines u (take k lines) asm_init = Inr sk
             \<and> address sk = of_nat (length (program sk))"
  proof (intro allI impI)
    fix k
    assume "k \<le> length lines"
    have "assemble_lines u (take k lines @ drop k lines) asm_init = Inr s'"
      using s' by simp
    then obtain sk where sk: "assemble_lines u (take k lines) asm_init = Inr sk"
      unfolding assemble_lines_append by (auto split: sum.splits)
    have "\<forall>raw \<in> set (take k lines). clean_line raw = [] \<or> three_step_line raw"
      using h by (auto dest: in_set_takeD)
    from assemble_lines_three_step[OF this sk]
    have "address sk = of_nat (length (program sk))"
      by (simp add: asm_init_def)
    with sk show "\<exists>sk. assemble_lines u (take k lines) asm_init = Inr sk
             \<and> address sk = of_nat (length (program sk))"
      by blast
  qed
next
  assume h: "tokenize (clean_line raw) = [L @ '':''] \<and> take 2 (L @ '':'') \<noteq> ''LD''
      \<and> take 2 (L @ '':'') \<noteq> ''ST'' \<and> take 3 (L @ '':'') \<noteq> ''ADD''
      \<and> take 3 (L @ '':'') \<noteq> ''SUB'' \<and> assemble_line u raw s = Inr s1"
  then have "assemble_line u raw s =
     check_waiting_labels (butlast (L @ '':'')) (address s + (if address s = 0 then 0 else 1))
            (s\<lparr>address := address s + (if address s = 0 then 0 else 1),
               labels := map_insert (labels s) (butlast (L @ '':''))
                           (address s + (if address s = 0 then 0 else 1))\<rparr>)"
    by (intro assemble_label_line[of raw "L @ '':''" "[]" u s]) simp_all
  with h have "length (program s1) = length (program s)
      \<and> address s1 = address s + (if address s = 0 then 0 else 1)"
    by (auto simp: check_waiting_labels_def split: option.splits if_splits)
  then show "length (program s1) = length (program s)"
    and "address s1 = address s + (if address s = 0 then 0 else 1)"
    by simp_all
qed

text \<open>
  Witness: a load, a comment line, a store and a jump give nine bytes and the counter 9;
  the declaration \<open>end:\<close> after one load moves the counter from 3 to 4 and leaves the
  three bytes alone.
\<close>

theorem counter_tracks_emitted_bytes_witness:
  "assembler_main 0 [''LDA 5'', ''; keep'', ''STA $0000'', ''JMP Z, end'']
     = Inr ([0x01, 0x05, 0xFF, 0x03, 0x00, 0x00, 0x14, 0xFF, 0xFF], 9)
   \<and> (9 :: u16) = of_nat (length [0x01, 0x05, 0xFF, 0x03, 0x00, 0x00, 0x14, 0xFF, 0xFF :: u8])
   \<and> assemble_line 0 ''end:''
        \<lparr>address = 3, labels = Map.empty, waiting_labels = Map.empty, program = [0x01, 0x05, 0xFF]\<rparr>
     = Inr \<lparr>address = 4, labels = [''end'' \<mapsto> 4], waiting_labels = Map.empty,
            program = [0x01, 0x05, 0xFF]\<rparr>"
proof -
  have a: "assembler_main 0 [''LDA 5'', ''; keep'', ''STA $0000'', ''JMP Z, end'']
     = Inr ([0x01, 0x05, 0xFF, 0x03, 0x00, 0x00, 0x14, 0xFF, 0xFF], 9)"
    by code_simp
  have c: "\<forall>raw \<in> set [''LDA 5'', ''; keep'', ''STA $0000'', ''JMP Z, end''].
             clean_line raw = [] \<or> three_step_line raw"
    by (simp add: three_step_line_def clean_line_def isspace_def)
  have t: "tokenize (clean_line ''end:'') = [''end'' @ '':'']"
    by (simp add: clean_line_def isspace_def)
  have l: "assemble_line 0 ''end:''
        \<lparr>address = 3, labels = Map.empty, waiting_labels = Map.empty, program = [0x01, 0x05, 0xFF]\<rparr>
     = Inr \<lparr>address = 4, labels = [''end'' \<mapsto> 4], waiting_labels = Map.empty,
            program = [0x01, 0x05, 0xFF]\<rparr>"
    using assemble_label_line[of "''end:''" "''end:''" "[]" 0
        "\<lparr>address = 3, labels = Map.empty, waiting_labels = Map.empty, program = [0x01, 0x05, 0xFF]\<rparr>"] t
    by (simp add: check_waiting_labels_def map_insert_def)
  from counter_tracks_emitted_bytes
    [of "[''LDA 5'', ''; keep'', ''STA $0000'', ''JMP Z, end'']" 0
        "[0x01, 0x05, 0xFF, 0x03, 0x00, 0x00, 0x14, 0xFF, 0xFF]" 9
        "''end:''" "''end''"
        "\<lparr>address = 3, labels = Map.empty, waiting_labels = Map.empty, program = [0x01, 0x05, 0xFF]\<rparr>"
        "\<lparr>address = 4, labels = [''end'' \<mapsto> 4], waiting_labels = Map.empty,
            program = [0x01, 0x05, 0xFF]\<rparr>"]
    a c t l
  show ?thesis by (simp add: clean_line_def)
qed

text \<open>
  C8 as stated fails on a NOP line and on a label line: the input \<open>NOP\<close> gives three
  bytes and the counter 1; the input \<open>LDA 1\<close>, \<open>x:\<close>, \<open>LDA 2\<close> gives six bytes and the
  counter 7.
\<close>

theorem counter_counterexample:
  "assembler_main 0 [''NOP''] = Inr ([0x00, 0xFF, 0xFF], 1)
   \<and> assembler_main 0 [''LDA 1'', ''x:'', ''LDA 2''] = Inr ([0x01, 0x01, 0xFF, 0x01, 0x02, 0xFF], 7)"
  by code_simp

subsection \<open>Forward references\<close>

lemma map_insert_absent:
  "m k = None \<Longrightarrow> map_insert m k v = m(k \<mapsto> v)"
  by (simp add: map_insert_def)

lemma small_counter: "m < 65536 \<Longrightarrow> unat (of_nat m :: u16) = m"
  by (simp add: unat_of_nat)

lemma patch_pair:
  "(p @ opc # b1 # b2 # rest)[length p + 1 := hi, length p + 2 := lo] = p @ opc # hi # lo # rest"
  by (simp add: list_update_append)

text \<open>
  C2, as the code has it. \<^verbatim>\<open>waiting_labels\<close> maps a label to one counter value, and
  \<^verbatim>\<open>insert\<close> keeps the value that is already there. The statement is about this
  input. The assembler is in a state \<open>s\<close> whose address counter is the number of bytes
  emitted so far, and the label \<open>L\<close> is neither defined nor waiting. The line \<open>first\<close>
  is a conditional jump to \<open>L\<close>: the three tokens \<open>JMP\<close>, a condition and \<open>L\<close>. Each
  line of \<open>between\<close> is empty once \<^verbatim>\<open>clean_line\<close> has cut it at its first semicolon, or
  is a line of \<open>three_step_line\<close> (a load, a store, a compare, a jump to any label, an
  ADD or SUB with a register first, an AND, OR or XOR of registers); further jumps to \<open>L\<close>
  are among these. The assembler accepts these lines and reaches the state \<open>s2\<close> with
  fewer than 65536 bytes. The line \<open>definition_line\<close> is the one token \<open>L:\<close>, where
  \<open>L:\<close> does not begin with LD, ST, ADD or SUB (such a token is taken by an earlier block
  of \<^verbatim>\<open>parse_line\<close>).

  Then the definition line is accepted; \<open>L\<close> gets the address \<open>A\<close>, the counter plus
  one; the entry of \<open>L\<close> in \<^verbatim>\<open>waiting_labels\<close> is still the one that \<open>first\<close> has
  made; and the program changes in exactly two bytes, at the offsets \<open>n + 1\<close> and
  \<open>n + 2\<close>, where \<open>n\<close> is the offset of the opcode of \<open>first\<close>: its operand pair now
  holds the high and the low byte of \<open>A\<close>. Every later conditional jump to \<open>L\<close> among
  the lines of \<open>between\<close> still stands in the program as its opcode followed by
  FF FF; its offset is \<open>n + 3\<close> and three more for each line of \<open>between\<close> before it
  that \<^verbatim>\<open>clean_line\<close> does not leave empty. So the pairs of all
  references are patched when \<open>first\<close> is the only one, and only the first pair
  otherwise.
\<close>

theorem first_reference_only_patched:
  assumes "unat (address s) = length (program s)"
    and "labels s L = None" and "waiting_labels s L = None"
    and "tokenize (clean_line first) = [''JMP'', c, L]"
    and "jump_cases (erase_from_comma c) = Some opc"
    and "\<forall>raw \<in> set between. clean_line raw = [] \<or> three_step_line raw"
    and "assemble_lines u (first # between) s = Inr s2"
    and "length (program s2) < 65536"
    and "tokenize (clean_line definition_line) = [L @ '':'']"
    and "take 2 (L @ '':'') \<noteq> ''LD''" and "take 2 (L @ '':'') \<noteq> ''ST''"
    and "take 3 (L @ '':'') \<noteq> ''ADD''" and "take 3 (L @ '':'') \<noteq> ''SUB''"
    and "n = length (program s)" and "A = address s2 + 1"
    and "patched = (program s2)[n + 1 := high_byte A, n + 2 := low_byte A]"
  shows "assemble_lines u (first # between @ [definition_line]) s
           = Inr (s2\<lparr>address := A, labels := (labels s2)(L \<mapsto> A), program := patched\<rparr>)
       \<and> waiting_labels s2 L = Some (address s + 2)
       \<and> take (n + 3) patched = program s @ [opc, high_byte A, low_byte A]
       \<and> (\<forall>before r c' opc' after.
             between = before @ r # after \<and> tokenize (clean_line r) = [''JMP'', c', L]
             \<and> jump_cases (erase_from_comma c') = Some opc' \<longrightarrow>
             take 3 (drop (n + 3 + 3 * length (filter (\<lambda>raw. clean_line raw \<noteq> []) before))
                       patched) = [opc', 0xFF, 0xFF])"
proof -
  define s1 where "s1 = s\<lparr>address := address s + 3,
      waiting_labels := (waiting_labels s)(L \<mapsto> address s + 2),
      program := program s @ [opc, 0xFF, 0xFF]\<rparr>"
  define m where "m = length (filter (\<lambda>raw. clean_line raw \<noteq> []) between)"
  have a: "address s = of_nat n"
    by (simp add: assms(14) assms(1)[symmetric])
  have one: "assemble_line u first s = Inr s1"
    using assemble_conditional_jump[of first c L "[]" opc s u] assms(2-5)
    by (simp add: s1_def map_insert_absent)
  with assms(7) have two: "assemble_lines u between s1 = Inr s2"
    by simp
  from assemble_lines_three_step[OF assms(6) two]
  have a2: "address s2 = address s1 + of_nat (3 * m)"
    and len2: "length (program s2) = length (program s1) + 3 * m"
    by (simp_all add: m_def)
  from assemble_lines_three_step_maps[OF assms(6) two, of L "address s + 2"]
  obtain bytes where lab2: "labels s2 = labels s1"
    and wait2: "waiting_labels s2 L = Some (address s + 2)"
    and prog2: "program s2 = program s1 @ bytes"
    by (auto simp: s1_def)
  have len: "length (program s2) = n + 3 + 3 * m"
    using len2 by (simp add: s1_def assms(14))
  have bound: "n + 3 + 3 * m < 65536"
    using assms(8) len by simp
  have a2': "address s2 = of_nat (n + 3 + 3 * m)"
    by (simp add: a2 s1_def a)
  have nz: "address s2 \<noteq> 0"
  proof
    assume "address s2 = 0"
    then have "unat (address s2) = 0"
      by simp
    moreover have "unat (address s2) = n + 3 + 3 * m"
      unfolding a2' by (rule small_counter[OF bound])
    ultimately show False by simp
  qed
  have w: "unat (address s + 2) = n + 2"
  proof -
    have "address s + 2 = of_nat (n + 2)" by (simp add: a)
    moreover have "n + 2 < 65536" using bound by simp
    ultimately show ?thesis by (simp only: small_counter)
  qed
  have labL: "labels s2 L = None"
    using lab2 assms(2) by (simp add: s1_def)
  have "assemble_line u definition_line s2 =
     check_waiting_labels (butlast (L @ '':'')) (address s2 + (if address s2 = 0 then 0 else 1))
            (s2\<lparr>address := address s2 + (if address s2 = 0 then 0 else 1),
               labels := map_insert (labels s2) (butlast (L @ '':''))
                           (address s2 + (if address s2 = 0 then 0 else 1))\<rparr>)"
    using assms(9-13) by (intro assemble_label_line[of definition_line "L @ '':''" "[]"]) simp_all
  also have "\<dots> = check_waiting_labels L A (s2\<lparr>address := A, labels := (labels s2)(L \<mapsto> A)\<rparr>)"
    using nz labL by (simp add: assms(15) map_insert_absent)
  also have "\<dots> = Inr (s2\<lparr>address := A, labels := (labels s2)(L \<mapsto> A), program := patched\<rparr>)"
    using w wait2 len
    by (simp add: check_waiting_labels_def assms(16) high_byte_def low_byte_def)
  finally have three: "assemble_line u definition_line s2
      = Inr (s2\<lparr>address := A, labels := (labels s2)(L \<mapsto> A), program := patched\<rparr>)" .
  have "assemble_lines u (first # between @ [definition_line]) s
          = assemble_line u definition_line s2"
    using one two by (simp add: assemble_lines_append split: sum.splits)
  with three have c1: "assemble_lines u (first # between @ [definition_line]) s
           = Inr (s2\<lparr>address := A, labels := (labels s2)(L \<mapsto> A), program := patched\<rparr>)"
    by simp
  have p2: "program s2 = program s @ opc # 0xFF # 0xFF # bytes"
    using prog2 by (simp add: s1_def)
  have "patched = program s @ opc # high_byte A # low_byte A # bytes"
    unfolding assms(16) assms(14) p2 by (rule patch_pair)
  then have c3: "take (n + 3) patched = program s @ [opc, high_byte A, low_byte A]"
    by (simp add: assms(14))
  have c4: "take 3 (drop (n + 3 + 3 * length (filter (\<lambda>raw. clean_line raw \<noteq> []) before))
                       patched) = [opc', 0xFF, 0xFF]"
    if h: "between = before @ r # after" "tokenize (clean_line r) = [''JMP'', c', L]"
      "jump_cases (erase_from_comma c') = Some opc'" for before r c' opc' after
  proof -
    from two h(1) obtain sa sb where sa: "assemble_lines u before s1 = Inr sa"
      and sb: "assemble_line u r sa = Inr sb" and rest: "assemble_lines u after sb = Inr s2"
      by (auto simp: assemble_lines_append split: sum.splits)
    have cb: "\<forall>raw \<in> set before. clean_line raw = [] \<or> three_step_line raw"
      and ca: "\<forall>raw \<in> set after. clean_line raw = [] \<or> three_step_line raw"
      using assms(6) h(1) by auto
    define k where "k = length (filter (\<lambda>raw. clean_line raw \<noteq> []) before)"
    from assemble_lines_three_step[OF cb sa]
    have lena: "length (program sa) = n + 3 + 3 * k"
      by (simp add: k_def s1_def assms(14))
    from assemble_lines_three_step_maps[OF cb sa] assms(2)
    have laba: "labels sa L = None"
      by (simp add: s1_def)
    from assemble_conditional_jump[of r c' L "[]" opc' sa u] h(2,3) laba sb
    have pb: "program sb = program sa @ [opc', 0xFF, 0xFF]"
      by auto
    from assemble_lines_three_step_maps[OF ca rest] obtain more
      where "program s2 = program sb @ more"
      by auto
    with pb have "program s2 = program sa @ opc' # 0xFF # 0xFF # more"
      by simp
    then have "take 3 (drop (n + 3 + 3 * k) (program s2)) = [opc', 0xFF, 0xFF]"
      using lena by simp
    then show ?thesis
      by (simp add: assms(16) k_def drop_update_cancel)
  qed
  from c1 wait2 c3 c4 show ?thesis
    by blast
qed

text \<open>
  Witness: from the initial state, a jump to \<open>l\<close>, a load, a second jump to \<open>l\<close>, a
  comment and the line \<open>l:\<close>. The pair of the first jump becomes 00 0A, the pair of the
  second jump stays FF FF. (The first argument of \<open>assemble_lines\<close> is the byte of an
  unassigned opcode; no line here leaves the opcode unassigned.)
\<close>

theorem first_reference_only_patched_witness:
  "assemble_lines 0 [''JMP Z, l'', ''LDA 1'', ''JMP NZ, l'', ''; note'', ''l:''] asm_init
     = Inr \<lparr>address = 10, labels = [''l'' \<mapsto> 10], waiting_labels = [''l'' \<mapsto> 2],
            program = [0x14, 0x00, 0x0A, 0x01, 0x01, 0xFF, 0x15, 0xFF, 0xFF]\<rparr>"
proof -
  have t: "tokenize (clean_line ''JMP Z, l'') = [''JMP'', ''Z,'', ''l'']"
    "tokenize (clean_line ''LDA 1'') = [''LDA'', ''1'']"
    "tokenize (clean_line ''JMP NZ, l'') = [''JMP'', ''NZ,'', ''l'']"
    "clean_line ''; note'' = []"
    "tokenize (clean_line ''l:'') = [''l'' @ '':'']"
    by (simp_all add: clean_line_def isspace_def)
  have v: "is_register ''1'' = (False, ''1'')" "is_address ''1'' = Inr False"
    "get_value ''1'' = Inr 0x01"
    by code_simp+
  have j: "jump_cases (erase_from_comma ''Z,'') = Some 0x14"
    "jump_cases (erase_from_comma ''NZ,'') = Some 0x15"
    by (simp_all add: jump_cases_def erase_from_comma_def)
  have l1: "assemble_line 0 ''JMP Z, l'' asm_init
      = Inr \<lparr>address = 3, labels = Map.empty, waiting_labels = [''l'' \<mapsto> 2],
             program = [0x14, 0xFF, 0xFF]\<rparr>"
    using assemble_conditional_jump[of "''JMP Z, l''" "''Z,''" "''l''" "[]" "0x14" asm_init 0] t j
    by (simp add: asm_init_def map_insert_def)
  have l2: "assemble_line 0 ''LDA 1''
        \<lparr>address = 3, labels = Map.empty, waiting_labels = [''l'' \<mapsto> 2],
         program = [0x14, 0xFF, 0xFF]\<rparr>
      = Inr \<lparr>address = 6, labels = Map.empty, waiting_labels = [''l'' \<mapsto> 2],
             program = [0x14, 0xFF, 0xFF, 0x01, 0x01, 0xFF]\<rparr>"
    using assemble_load_value[of "''LDA 1''" "''LDA''" "''1''" "0x01" "''1''" "0x01" 0
        "\<lparr>address = 3, labels = Map.empty, waiting_labels = [''l'' \<mapsto> 2],
          program = [0x14, 0xFF, 0xFF]\<rparr>"] t v
    by (simp add: ld_values_def)
  have l3: "assemble_line 0 ''JMP NZ, l''
        \<lparr>address = 6, labels = Map.empty, waiting_labels = [''l'' \<mapsto> 2],
         program = [0x14, 0xFF, 0xFF, 0x01, 0x01, 0xFF]\<rparr>
      = Inr \<lparr>address = 9, labels = Map.empty, waiting_labels = [''l'' \<mapsto> 2],
             program = [0x14, 0xFF, 0xFF, 0x01, 0x01, 0xFF, 0x15, 0xFF, 0xFF]\<rparr>"
    using assemble_conditional_jump[of "''JMP NZ, l''" "''NZ,''" "''l''" "[]" "0x15"
        "\<lparr>address = 6, labels = Map.empty, waiting_labels = [''l'' \<mapsto> 2],
          program = [0x14, 0xFF, 0xFF, 0x01, 0x01, 0xFF]\<rparr>" 0] t j
    by (simp add: map_insert_def)
  have l4: "assemble_line 0 ''; note'' st = Inr st" for st
    using t by (simp add: assemble_line_def)
  have upto: "assemble_lines 0 (''JMP Z, l'' # [''LDA 1'', ''JMP NZ, l'', ''; note'']) asm_init
      = Inr \<lparr>address = 9, labels = Map.empty, waiting_labels = [''l'' \<mapsto> 2],
             program = [0x14, 0xFF, 0xFF, 0x01, 0x01, 0xFF, 0x15, 0xFF, 0xFF]\<rparr>"
    by (simp add: l1 l2 l3 l4)
  have cls: "\<forall>raw \<in> set [''LDA 1'', ''JMP NZ, l'', ''; note''].
               clean_line raw = [] \<or> three_step_line raw"
    by (simp add: three_step_line_def clean_line_def isspace_def)
  from first_reference_only_patched
    [of asm_init "''l''" "''JMP Z, l''" "''Z,''" "0x14" "[''LDA 1'', ''JMP NZ, l'', ''; note'']" 0
        "\<lparr>address = 9, labels = Map.empty, waiting_labels = [''l'' \<mapsto> 2],
          program = [0x14, 0xFF, 0xFF, 0x01, 0x01, 0xFF, 0x15, 0xFF, 0xFF]\<rparr>"
        "''l:''" 0 10 "[0x14, 0x00, 0x0A, 0x01, 0x01, 0xFF, 0x15, 0xFF, 0xFF]"]
    t(1,5) j(1) cls upto
  show ?thesis
    by (simp add: asm_init_def high_byte_def low_byte_def)
qed

text \<open>
  C2 as stated fails for \<open>k = 2\<close>: two conditional jumps to \<open>l\<close>, then its definition.
  The operand pair of the first jump becomes 00 07; the pair of the second jump stays
  FF FF.
\<close>

theorem second_reference_counterexample:
  "assembler_main 0 [''JMP Z, l'', ''JMP Z, l'', ''l:'']
     = Inr ([0x14, 0x00, 0x07, 0x14, 0xFF, 0xFF], 7)"
  by code_simp

subsection \<open>Undefined labels\<close>

text \<open>
  C7, as the code has it. The last line of the input is a jump to a label \<open>L\<close> that no
  line before it has defined, so that no line defines it at all; the lines before it
  assemble to the state \<open>s\<close>. Then the assembly of the whole input succeeds: the jump
  line contributes its opcode and the placeholder bytes FF FF, which stay in the output,
  and nothing after the loop of \<^verbatim>\<open>main\<close> looks at \<^verbatim>\<open>waiting_labels\<close>. The first part is
  the conditional form, the second the unconditional one.
\<close>

theorem undefined_label_not_reported:
  assumes "assemble_lines u ls asm_init = Inr s" and "labels s L = None"
  shows "(tokenize (clean_line raw) = [''JMP'', c, L] \<and> jump_cases (erase_from_comma c) = Some opc
            \<longrightarrow> assembler_main u (ls @ [raw]) = Inr (program s @ [opc, 0xFF, 0xFF], address s + 3))
       \<and> (tokenize (clean_line raw) = [''JMP'', L] \<and> erase_from_comma L = L \<and> jump_cases L = None
            \<longrightarrow> assembler_main u (ls @ [raw]) = Inr (program s @ [0x13, 0xFF, 0xFF], address s + 3))"
proof (intro conjI impI)
  assume "tokenize (clean_line raw) = [''JMP'', c, L] \<and> jump_cases (erase_from_comma c) = Some opc"
  then have "assemble_line u raw s =
     Inr (s\<lparr>address := address s + 3,
            waiting_labels := map_insert (waiting_labels s) L (address s + 2),
            program := program s @ [opc, 0xFF, 0xFF]\<rparr>)"
    using assemble_conditional_jump[of raw c L "[]" opc s u] assms(2) by simp
  then show "assembler_main u (ls @ [raw]) = Inr (program s @ [opc, 0xFF, 0xFF], address s + 3)"
    using assms(1) by (simp add: assembler_main_def assemble_lines_append)
next
  assume h: "tokenize (clean_line raw) = [''JMP'', L] \<and> erase_from_comma L = L \<and> jump_cases L = None"
  then have "assemble_line u raw s =
     Inr (s\<lparr>address := address s + 3,
            waiting_labels := map_insert (waiting_labels s) (erase_from_comma L) (address s + 1),
            program := program s @ [0x13, 0xFF, 0xFF]\<rparr>)"
    using assms(2) by (intro assemble_unconditional_jump[of raw L "[]" s u]) simp_all
  then show "assembler_main u (ls @ [raw]) = Inr (program s @ [0x13, 0xFF, 0xFF], address s + 3)"
    using assms(1) by (simp add: assembler_main_def assemble_lines_append)
qed

text \<open>
  Witness: an input that is one jump to the label \<open>nowhere\<close>, in both forms. (The first
  argument of \<open>assembler_main\<close> is the byte of an unassigned opcode; a jump line assigns
  its opcode.)
\<close>

theorem undefined_label_not_reported_witness:
  "assembler_main 0 [''JMP NZ, nowhere''] = Inr ([0x15, 0xFF, 0xFF], 3)
   \<and> assembler_main 0 [''JMP nowhere''] = Inr ([0x13, 0xFF, 0xFF], 3)"
  using undefined_label_not_reported
    [of 0 "[]" asm_init "''nowhere''" "''JMP NZ, nowhere''" "''NZ,''" "0x15"]
    undefined_label_not_reported
    [of 0 "[]" asm_init "''nowhere''" "''JMP nowhere''" "''NZ,''" "0x15"]
  by (simp add: asm_init_def clean_line_def isspace_def jump_cases_def erase_from_comma_def)

text \<open>
  C7 as stated fails: an input whose first line jumps to a label that no line defines is
  assembled without any error, and the placeholder FF FF is in the output.
\<close>

theorem undefined_label_counterexample:
  "assembler_main 0 [''JMP Z, nowhere'', ''LDA 1'', ''NOP'']
     = Inr ([0x14, 0xFF, 0xFF, 0x01, 0x01, 0xFF, 0x00, 0xFF, 0xFF], 7)"
  by code_simp

subsection \<open>The scenario\<close>

lemma scenario_tokens:
  "tokenize (clean_line ''LDA 5'') = [''LDA'', ''5'']"
  "tokenize (clean_line ''ADD A, 3'') = [''ADD'', ''A,'', ''3'']"
  "tokenize (clean_line ''STA $0000'') = [''STA'', ''$0000'']"
  "tokenize (clean_line ''NOP'') = [''NOP'']"
  by (simp_all add: clean_line_def isspace_def)

lemma scenario_operands:
  "is_register ''5'' = (False, ''5'')" "is_address ''5'' = Inr False" "get_value ''5'' = Inr 0x05"
  "is_register ''A,'' = (True, ''A'')" "is_register ''3'' = (False, ''3'')"
  "get_value ''3'' = Inr 0x03" "stoul_hex ''0000'' = Inr 0"
  by code_simp+

text \<open>
  C4, as the code has it. From any state of the assembler, \<^verbatim>\<open>parse_line\<close> turns the
  four lines into these instructions: opcode 01 with the operand 05; opcode 0D with the
  operands 00 and 03; opcode 03 with the operands 00 and 00; opcode 00 with no operand (a
  field that holds \<^verbatim>\<open>EMPTY_OPERAND\<close> is an operand the line does not have). In the
  order of the lines these are the bytes 01 05 0D 00 03 03 00 00 00. On the initial
  machine with these nine bytes in ROM, the step at PC = 0 leaves 5 in the accumulator,
  the step at PC = 2 leaves 8 there (opcode 0x0D adds, and 5 + 3 = 8), the step at PC = 5
  leaves 8 in RAM[0], and the step at PC = 8 is the halt. Nothing is said about the bytes
  that \<^verbatim>\<open>main\<close> writes for an operand that a line does not have, nor about the way
  \<^verbatim>\<open>run\<close> gets from one step to the next.
\<close>

theorem scenario_instructions_and_result:
  "map_sum id (instruction \<circ> fst) (parse_line (clean_line ''LDA 5'') s)
     = Inr \<lparr>opcode = Some 0x01, operand1 = 0x05, operand2 = word_of_int EMPTY_OPERAND\<rparr>
   \<and> map_sum id (instruction \<circ> fst) (parse_line (clean_line ''ADD A, 3'') s)
     = Inr \<lparr>opcode = Some 0x0D, operand1 = 0x00, operand2 = 0x03\<rparr>
   \<and> map_sum id (instruction \<circ> fst) (parse_line (clean_line ''STA $0000'') s)
     = Inr \<lparr>opcode = Some 0x03, operand1 = 0x00, operand2 = 0x00\<rparr>
   \<and> map_sum id (instruction \<circ> fst) (parse_line (clean_line ''NOP'') s)
     = Inr \<lparr>opcode = Some 0x00, operand1 = word_of_int EMPTY_OPERAND,
            operand2 = word_of_int EMPTY_OPERAND\<rparr>
   \<and> step (VM_init\<lparr>rom := [0x01, 0x05, 0x0D, 0x00, 0x03, 0x03, 0x00, 0x00, 0x00]
                             @ replicate 4087 0\<rparr>)
     = Inr (None, VM_init\<lparr>rom := [0x01, 0x05, 0x0D, 0x00, 0x03, 0x03, 0x00, 0x00, 0x00]
                                  @ replicate 4087 0,
                          registers := [5, 0, 0, 0], PC := 2\<rparr>)
   \<and> step (VM_init\<lparr>rom := [0x01, 0x05, 0x0D, 0x00, 0x03, 0x03, 0x00, 0x00, 0x00]
                             @ replicate 4087 0,
                     registers := [5, 0, 0, 0], PC := 2\<rparr>)
     = Inr (None, VM_init\<lparr>rom := [0x01, 0x05, 0x0D, 0x00, 0x03, 0x03, 0x00, 0x00, 0x00]
                                  @ replicate 4087 0,
                          registers := [8, 0, 0, 0], PC := 5\<rparr>)
   \<and> step (VM_init\<lparr>rom := [0x01, 0x05, 0x0D, 0x00, 0x03, 0x03, 0x00, 0x00, 0x00]
                             @ replicate 4087 0,
                     registers := [8, 0, 0, 0], PC := 5\<rparr>)
     = Inr (None, VM_init\<lparr>rom := [0x01, 0x05, 0x0D, 0x00, 0x03, 0x03, 0x00, 0x00, 0x00]
                                  @ replicate 4087 0,
                          ram := (replicate 4096 0)[0 := 8],
                          registers := [8, 0, 0, 0], PC := 8\<rparr>)
   \<and> step (VM_init\<lparr>rom := [0x01, 0x05, 0x0D, 0x00, 0x03, 0x03, 0x00, 0x00, 0x00]
                             @ replicate 4087 0,
                     ram := (replicate 4096 0)[0 := 8],
                     registers := [8, 0, 0, 0], PC := 8\<rparr>)
     = Inr (Some (- 1),
            VM_init\<lparr>rom := [0x01, 0x05, 0x0D, 0x00, 0x03, 0x03, 0x00, 0x00, 0x00]
                             @ replicate 4087 0,
                     ram := (replicate 4096 0)[0 := 8],
                     registers := [8, 0, 0, 0], PC := 9\<rparr>)"
proof (intro conjI)
  have e: "(- 1 :: u8) = 0xFF" by simp
  show "map_sum id (instruction \<circ> fst) (parse_line (clean_line ''LDA 5'') s)
     = Inr \<lparr>opcode = Some 0x01, operand1 = 0x05, operand2 = word_of_int EMPTY_OPERAND\<rparr>"
    using e by (simp add: parse_line_tokens[OF scenario_tokens(1)] block_defs finish_def
        scenario_operands ld_values_def EMPTY_OPERAND_def)
  show "map_sum id (instruction \<circ> fst) (parse_line (clean_line ''ADD A, 3'') s)
     = Inr \<lparr>opcode = Some 0x0D, operand1 = 0x00, operand2 = 0x03\<rparr>"
    by (simp add: parse_line_tokens[OF scenario_tokens(2)] block_defs finish_def
        scenario_operands register_codes_def)
  show "map_sum id (instruction \<circ> fst) (parse_line (clean_line ''STA $0000'') s)
     = Inr \<lparr>opcode = Some 0x03, operand1 = 0x00, operand2 = 0x00\<rparr>"
    by (simp add: parse_line_tokens[OF scenario_tokens(3)] block_defs finish_def
        scenario_operands st_addresses_def substr1_def high_byte_def low_byte_def)
  show "map_sum id (instruction \<circ> fst) (parse_line (clean_line ''NOP'') s)
     = Inr \<lparr>opcode = Some 0x00, operand1 = word_of_int EMPTY_OPERAND,
            operand2 = word_of_int EMPTY_OPERAND\<rparr>"
    using e by (simp add: parse_line_tokens[OF scenario_tokens(4)] block_defs finish_def
        EMPTY_OPERAND_def)
qed (simp_all add: step_def execute_def load_value_def reg_value_op_def store_register_def
      fetch16_def fetch_def get_reg_def set_reg_def VM_init_def A_REG_def)

text \<open>
  C4 as stated fails: the bytes that the assembler writes for the four lines are not the
  nine bytes of the claim, and the nine bytes of the claim, executed step by step, leave 8
  and not 7 in the accumulator and in RAM[0].
\<close>

theorem scenario_counterexample:
  "map_sum id fst (assembler_main 0 [''LDA 5'', ''ADD A, 3'', ''STA $0000'', ''NOP''])
     \<noteq> Inr [0x01, 0x05, 0x0D, 0x00, 0x03, 0x03, 0x00, 0x00, 0x00]
   \<and> map_sum id (\<lambda>(result, t). registers t ! 0)
       (step (VM_init\<lparr>rom := [0x01, 0x05, 0x0D, 0x00, 0x03, 0x03, 0x00, 0x00, 0x00]
                               @ replicate 4087 0,
                       registers := [5, 0, 0, 0], PC := 2\<rparr>))
     = Inr 8
   \<and> map_sum id (\<lambda>(result, t). ram t ! 0)
       (step (VM_init\<lparr>rom := [0x01, 0x05, 0x0D, 0x00, 0x03, 0x03, 0x00, 0x00, 0x00]
                               @ replicate 4087 0,
                       registers := [8, 0, 0, 0], PC := 5\<rparr>))
     = Inr 8
   \<and> (8::u8) \<noteq> 7"
proof (intro conjI)
  have "assembler_main 0 [''LDA 5'', ''ADD A, 3'', ''STA $0000'', ''NOP'']
     = Inr ([0x01, 0x05, 0xFF, 0x0D, 0x00, 0x03, 0x03, 0x00, 0x00, 0x00, 0xFF, 0xFF], 10)"
    by code_simp
  then show "map_sum id fst (assembler_main 0 [''LDA 5'', ''ADD A, 3'', ''STA $0000'', ''NOP''])
     \<noteq> Inr [0x01, 0x05, 0x0D, 0x00, 0x03, 0x03, 0x00, 0x00, 0x00]"
    by simp
qed (simp_all add: step_def execute_def load_value_def reg_value_op_def store_register_def
      fetch16_def fetch_def get_reg_def set_reg_def VM_init_def A_REG_def)

end
